theory Spec2Isabelle
  imports
    Main
    "HOL-Library.AList"
    "HOL-Library.Char_ord"
    "HOL-Library.List_Lexorder"
    "HOL-Library.Product_Lexorder"
begin

section \<open>Local-unit reports of the IFRC GO API: the two extraction scripts\<close>

text \<open>
  The repository holds two Python scripts, \<^verbatim>\<open>extract_local_units.py\<close> (the simple report)
  and \<^verbatim>\<open>extract_local_units_treemap.py\<close> (the treemap report). Both page through a REST
  listing, tally the records and write a spreadsheet. This theory embeds them as HOL
  functions:
  \<^item> JSON objects of the shapes the scripts consume are records with optional fields
    (\<^verbatim>\<open>d.get(k)\<close> on an absent or null field is \<open>None\<close>);
  \<^item> Python \<^verbatim>\<open>dict\<close> and \<^verbatim>\<open>Counter\<close> values are association lists in insertion order;
  \<^item> an exception is a value of type \<open>exn\<close> on the left of a sum;
  \<^item> the remote server is a function from the requested offset to the outcome of the
    request, so that every sequence of responses the paging loop can meet is covered;
  \<^item> \<^verbatim>\<open>print\<close> and the spreadsheet write are collected in the result of a run;
  \<^item> a loop that may not return yields \<open>None\<close>.
  Strings are byte lists; the lexicographic order on bytes agrees with Python's order on
  code points for UTF-8 text.
\<close>

subsection \<open>Exceptions, responses and records\<close>

text \<open>
  \<open>ConnectionError\<close> and \<open>HTTPError\<close> are the two classes of \<^verbatim>\<open>requests.exceptions\<close> the
  scripts catch. \<open>OtherError\<close> is any exception of a request that is an instance of neither
  (a read timeout, a body that is not JSON). \<open>KeyError\<close> is what pandas raises for a column
  label that a frame does not have.
\<close>

datatype exn = ConnectionError | HTTPError | OtherError | KeyError string

text \<open>The body \<^verbatim>\<open>{"count": int, "results": [...]}\<close> of one page; either key may be absent.\<close>

record 'r page =
  count :: "int option"
  results :: "'r list option"

text \<open>
  \<^verbatim>\<open>requests.get(base_url, headers=HEADERS, params={"limit": LIMIT, "offset": offset})\<close>
  followed by \<^verbatim>\<open>raise_for_status()\<close> and \<^verbatim>\<open>json()\<close>, as a function of the offset.
\<close>

type_synonym 'r http_get = "nat \<Rightarrow> exn + 'r page"

text \<open>A local unit \<^verbatim>\<open>{"type_details": {"name": str} | null, "country": int | null}\<close>.\<close>

record type_info =
  name :: "string option"

record local_unit =
  type_details :: "type_info option"
  country :: "int option"

text \<open>A country \<^verbatim>\<open>{"id": int, "region": int}\<close>, read with \<^verbatim>\<open>c.get("id")\<close> and \<^verbatim>\<open>c.get("region")\<close>.\<close>

record country_entry =
  country_id :: "int option"
  region_id :: "int option"

subsection \<open>Spreadsheet cells, frames and what a run prints\<close>

text \<open>
  A cell of a pandas frame. The two derived columns of the simple report are computed in
  binary floating point; their cells keep the operands of that computation:
  \<open>RoundPct2 c t\<close> is the float64 value of \<^verbatim>\<open>(c / t * 100).round(2)\<close> and \<open>RoundPct0 c t\<close> the
  integer \<^verbatim>\<open>(c / t * 100).round(0).astype(int)\<close>. \<open>NaN\<close> fills a key that a row lacks.
\<close>

datatype cell = Str string | Num int | RoundPct2 int int | RoundPct0 int int | NaN

type_synonym row = "(string \<times> cell) list"

type_synonym dataframe = "(string \<times> cell list) list"

type_synonym 'k counter = "('k \<times> nat) list"

datatype log_event =
    Banner string
  | Fetching string nat
  | Got nat nat int
  | TotalRecords nat
  | TypesFound "string counter"
  | FetchingCountries
  | Mapped nat
  | FetchingLocalUnits
  | TotalLocalUnits nat
  | Unresolved "int option set"
  | EnvRows string nat
  | WarnUnreachable string
  | WarnHTTP string
  | NoEnvironment
  | Saved string "string list"
  | PrintFrame dataframe

text \<open>
  The outcome of a run of \<^verbatim>\<open>main()\<close>: what was printed, the files written (file name, then
  the sheets by name) and the exception that ended the run, if one did.
\<close>

record run =
  printed :: "log_event list"
  written :: "(string \<times> (string \<times> dataframe) list) list"
  raised :: "exn option"

subsection \<open>Fetcher\<close>

definition LIMIT :: nat where
  "LIMIT = 50"

text \<open>
  The body of \<^verbatim>\<open>fetch_all_local_units\<close> and of \<^verbatim>\<open>fetch_paginated\<close>; the two differ only in
  the text printed before a request (the base URL, or the label). \<^verbatim>\<open>while True\<close> has no
  bound, so the loop is a partial function: \<open>None\<close> is a loop that never breaks. An
  exception leaves the loop with what was printed so far.
\<close>

partial_function (option) fetch_loop ::
  "'r http_get \<Rightarrow> string \<Rightarrow> nat \<Rightarrow> 'r list \<Rightarrow> log_event list
     \<Rightarrow> (log_event list \<times> (exn + 'r list)) option"
where
  "fetch_loop get tag offset all_results out =
     (case get offset of
        Inl e \<Rightarrow> Some (out @ [Fetching tag offset], Inl e)
      | Inr data \<Rightarrow>
          (let rs = (case results data of None \<Rightarrow> [] | Some xs \<Rightarrow> xs);
               all_results' = all_results @ rs;
               total = (case count data of None \<Rightarrow> 0 | Some c \<Rightarrow> c);
               offset' = offset + LIMIT;
               out' = out @ [Fetching tag offset, Got (length rs) (length all_results') total]
           in if int offset' \<ge> total \<or> length rs = 0
              then Some (out', Inr all_results')
              else fetch_loop get tag offset' all_results' out'))"

declare fetch_loop.simps [code]

definition fetch_all_local_units ::
  "'r http_get \<Rightarrow> string \<Rightarrow> (log_event list \<times> (exn + 'r list)) option" where
  "fetch_all_local_units get base_url = fetch_loop get base_url 0 [] []"

definition fetch_paginated ::
  "'r http_get \<Rightarrow> string \<Rightarrow> (log_event list \<times> (exn + 'r list)) option" where
  "fetch_paginated get label = fetch_loop get label 0 [] []"

subsection \<open>Counter\<close>

text \<open>
  \<^verbatim>\<open>collections.Counter\<close>: a missing key reads as 0, and \<^verbatim>\<open>counter[k] += 1\<close> stores the
  incremented value, at the end of the dictionary when the key is new.
\<close>

definition counter_get :: "'k counter \<Rightarrow> 'k \<Rightarrow> nat" where
  "counter_get counter k = (case map_of counter k of None \<Rightarrow> 0 | Some n \<Rightarrow> n)"

definition counter_incr :: "'k \<Rightarrow> 'k counter \<Rightarrow> 'k counter" where
  "counter_incr k counter = AList.update k (counter_get counter k + 1) counter"

text \<open>
  The test \<^verbatim>\<open>type_details and type_details.get("name")\<close>: the name when the test is truthy.
  \<^verbatim>\<open>None\<close>, an object without a name, a null name and the empty string are all falsy (an
  empty object is falsy by itself, and has no name either).
\<close>

definition truthy_name :: "type_info option \<Rightarrow> string option" where
  "truthy_name td =
     (case td of
        None \<Rightarrow> None
      | Some d \<Rightarrow> (case name d of None \<Rightarrow> None | Some n \<Rightarrow> if n \<noteq> [] then Some n else None))"

subsection \<open>Simple report: aggregator\<close>

fun count_types_loop :: "string counter \<Rightarrow> local_unit list \<Rightarrow> string counter" where
  "count_types_loop counter [] = counter"
| "count_types_loop counter (record # records) =
     count_types_loop
       (case truthy_name (type_details record) of
          Some n \<Rightarrow> counter_incr n counter
        | None \<Rightarrow> counter_incr ''Unknown / No Type'' counter)
       records"

definition count_types :: "local_unit list \<Rightarrow> string counter" where
  "count_types records = count_types_loop [] records"

subsection \<open>Treemap report: region resolver and aggregator\<close>

definition REGION_MAP :: "(int \<times> string) list" where
  "REGION_MAP =
     [(0, ''Africa''), (1, ''Americas''), (2, ''Asia Pacific''), (3, ''Europe''), (4, ''MENA'')]"

text \<open>\<^verbatim>\<open>str\<close> of an integer, as the f-string \<^verbatim>\<open>f"Unknown ({region_id})"\<close> formats it.\<close>

definition digit_char :: "nat \<Rightarrow> char" where
  "digit_char d = ''0123456789'' ! d"

fun str_nat :: "nat \<Rightarrow> string" where
  "str_nat n = (if n < 10 then [digit_char n] else str_nat (n div 10) @ [digit_char (n mod 10)])"

declare str_nat.simps [simp del]

definition str_int :: "int \<Rightarrow> string" where
  "str_int i = (if i < 0 then CHR ''-'' # str_nat (nat (- i)) else str_nat (nat i))"

text \<open>The expression \<^verbatim>\<open>REGION_MAP.get(region_id, f"Unknown ({region_id})")\<close>.\<close>

definition region_label :: "int \<Rightarrow> string" where
  "region_label g =
     (case map_of REGION_MAP g of
        Some region \<Rightarrow> region
      | None \<Rightarrow> ''Unknown ('' @ str_int g @ '')'')"

fun build_country_to_region_loop ::
  "(int \<times> string) list \<Rightarrow> country_entry list \<Rightarrow> (int \<times> string) list" where
  "build_country_to_region_loop mapping [] = mapping"
| "build_country_to_region_loop mapping (c # countries) =
     build_country_to_region_loop
       (case (country_id c, region_id c) of
          (Some i, Some g) \<Rightarrow> AList.update i (region_label g) mapping
        | _ \<Rightarrow> mapping)
       countries"

definition build_country_to_region :: "country_entry list \<Rightarrow> (int \<times> string) list" where
  "build_country_to_region countries = build_country_to_region_loop [] countries"

text \<open>
  \<^verbatim>\<open>country_to_region.get(country_id)\<close>: the keys of the mapping are integers, so a null
  country is never found.
\<close>

definition region_lookup :: "(int \<times> string) list \<Rightarrow> int option \<Rightarrow> string option" where
  "region_lookup country_to_region cid =
     (case cid of None \<Rightarrow> None | Some i \<Rightarrow> map_of country_to_region i)"

text \<open>Step 3 of \<^verbatim>\<open>process_environment\<close>: the loop over the local units.\<close>

fun count_type_region_loop ::
  "(int \<times> string) list \<Rightarrow> (string \<times> string) counter \<times> int option set \<Rightarrow> local_unit list
     \<Rightarrow> (string \<times> string) counter \<times> int option set" where
  "count_type_region_loop country_to_region (type_region_counter, unresolved_countries) [] =
     (type_region_counter, unresolved_countries)"
| "count_type_region_loop country_to_region (type_region_counter, unresolved_countries)
     (unit # local_units) =
     (let type_name =
            (case truthy_name (type_details unit) of Some n \<Rightarrow> n | None \<Rightarrow> ''Unknown Type'');
          country_id = country unit
      in case region_lookup country_to_region country_id of
           None \<Rightarrow>
             count_type_region_loop country_to_region
               (counter_incr (type_name, ''Unknown Region'') type_region_counter,
                insert country_id unresolved_countries)
               local_units
         | Some region_name \<Rightarrow>
             count_type_region_loop country_to_region
               (counter_incr (type_name, region_name) type_region_counter,
                unresolved_countries)
               local_units)"

definition count_type_region ::
  "(int \<times> string) list \<Rightarrow> local_unit list \<Rightarrow> (string \<times> string) counter \<times> int option set" where
  "count_type_region country_to_region local_units =
     count_type_region_loop country_to_region ([], {}) local_units"

subsection \<open>Frames\<close>

text \<open>
  \<^verbatim>\<open>pd.DataFrame(rows)\<close> for a list of dictionaries: one column per key, in the order the
  keys first appear; a row without the key holds NaN. An empty list gives a frame with no
  column at all.
\<close>

definition frame_columns :: "row list \<Rightarrow> string list" where
  "frame_columns rows = rev (remdups (rev (concat (map (map fst) rows))))"

definition DataFrame :: "row list \<Rightarrow> dataframe" where
  "DataFrame rows =
     map (\<lambda>k. (k, map (\<lambda>r. case map_of r k of None \<Rightarrow> NaN | Some v \<Rightarrow> v) rows))
       (frame_columns rows)"

text \<open>\<^verbatim>\<open>len(df)\<close>: every column has one cell per row.\<close>

definition frame_len :: "dataframe \<Rightarrow> nat" where
  "frame_len df = (case df of [] \<Rightarrow> 0 | (_, col) # _ \<Rightarrow> length col)"

text \<open>\<^verbatim>\<open>df[col].sum()\<close> of a column of integers.\<close>

fun cell_value :: "cell \<Rightarrow> int" where
  "cell_value (Num n) = n"
| "cell_value _ = 0"

definition column_sum :: "cell list \<Rightarrow> int" where
  "column_sum col = sum_list (map cell_value col)"

subsection \<open>Simple report: main\<close>

definition ENVIRONMENTS :: "(string \<times> string) list" where
  "ENVIRONMENTS =
     [(''production'', ''https://goadmin.ifrc.org/api/v2/local-units/''),
      (''staging'', ''https://goadmin-stage.ifrc.org/api/v2/local-units/'')]"

definition OUTPUT_FILE :: string where
  "OUTPUT_FILE = ''local_units_summary.xlsx''"

text \<open>The servers a run of the simple report talks to, by base URL.\<close>

type_synonym world = "string \<Rightarrow> local_unit http_get"

type_synonym env_counts = "(string \<times> string counter) list"

text \<open>
  The first loop of \<^verbatim>\<open>main\<close>, with its \<^verbatim>\<open>try\<close>: the two caught classes skip the environment,
  any other exception ends the run.
\<close>

fun fetch_environments ::
  "world \<Rightarrow> (string \<times> string) list \<Rightarrow> env_counts \<Rightarrow> log_event list
     \<Rightarrow> (log_event list \<times> (exn + env_counts)) option" where
  "fetch_environments w [] env_counts out = Some (out, Inr env_counts)"
| "fetch_environments w ((env_name, base_url) # envs) env_counts out =
     (case fetch_all_local_units (w base_url) base_url of
        None \<Rightarrow> None
      | Some (fetched, Inr records) \<Rightarrow>
          (let counts = count_types records
           in fetch_environments w envs (AList.update env_name counts env_counts)
                (out @ [Banner env_name] @ fetched
                   @ [TotalRecords (sum_list (map snd counts)), TypesFound counts]))
      | Some (fetched, Inl ConnectionError) \<Rightarrow>
          fetch_environments w envs env_counts
            (out @ [Banner env_name] @ fetched @ [WarnUnreachable env_name])
      | Some (fetched, Inl HTTPError) \<Rightarrow>
          fetch_environments w envs env_counts
            (out @ [Banner env_name] @ fetched @ [WarnHTTP env_name])
      | Some (fetched, Inl e) \<Rightarrow> Some (out @ [Banner env_name] @ fetched, Inl e))"

text \<open>
  The sorted list of the union of the key sets of all tallies in \<open>env_counts\<close>
  (\<^verbatim>\<open>sorted\<close> of a \<^verbatim>\<open>set\<close>: each key once).
\<close>

definition all_types :: "env_counts \<Rightarrow> string list" where
  "all_types env_counts = sort (remdups (concat (map (\<lambda>(_, c). map fst c) env_counts)))"

text \<open>The inner loop \<^verbatim>\<open>for env_name in ENVIRONMENTS\<close> that fills one row.\<close>

fun add_counts :: "env_counts \<Rightarrow> string \<Rightarrow> (string \<times> string) list \<Rightarrow> row \<Rightarrow> row" where
  "add_counts env_counts type_name [] r = r"
| "add_counts env_counts type_name ((env_name, _) # envs) r =
     add_counts env_counts type_name envs
       (case map_of env_counts env_name of
          Some counts \<Rightarrow>
            AList.update (''count_'' @ env_name) (Num (int (counter_get counts type_name))) r
        | None \<Rightarrow> r)"

definition build_rows :: "env_counts \<Rightarrow> row list" where
  "build_rows env_counts =
     map (\<lambda>type_name. add_counts env_counts type_name ENVIRONMENTS
                         [(''categories'', Str type_name)])
       (all_types env_counts)"

text \<open>
  The two derived columns of one environment. A scalar 0 assigned to a column fills every
  row.
\<close>

definition pct_column :: "int \<Rightarrow> cell list \<Rightarrow> cell list" where
  "pct_column column_total col =
     (if column_total \<noteq> 0
      then map (\<lambda>x. case x of Num c \<Rightarrow> RoundPct2 c column_total | _ \<Rightarrow> NaN) col
      else replicate (length col) (Num 0))"

definition waffle_column :: "int \<Rightarrow> cell list \<Rightarrow> cell list" where
  "waffle_column column_total col =
     (if column_total \<noteq> 0
      then map (\<lambda>x. case x of Num c \<Rightarrow> RoundPct0 c column_total | _ \<Rightarrow> NaN) col
      else replicate (length col) (Num 0))"

text \<open>
  The loop \<^verbatim>\<open>for env_name in env_counts\<close>; \<^verbatim>\<open>df[count_col]\<close> raises \<^verbatim>\<open>KeyError\<close> when the
  frame has no such column.
\<close>

fun add_derived :: "string list \<Rightarrow> dataframe \<Rightarrow> exn + dataframe" where
  "add_derived [] df = Inr df"
| "add_derived (env_name # envs) df =
     (case map_of df (''count_'' @ env_name) of
        None \<Rightarrow> Inl (KeyError (''count_'' @ env_name))
      | Some col \<Rightarrow>
          (let total = column_sum col
           in add_derived envs
                (AList.update (''waffle_cells_'' @ env_name) (waffle_column total col)
                   (AList.update (''pct_'' @ env_name) (pct_column total col) df))))"

text \<open>\<^verbatim>\<open>main\<close> from \<^verbatim>\<open>if not env_counts\<close> on.\<close>

definition main_report :: "env_counts \<Rightarrow> log_event list \<Rightarrow> run" where
  "main_report env_counts out =
     (if env_counts = []
      then \<lparr>printed = out @ [NoEnvironment], written = [], raised = None\<rparr>
      else
        (case add_derived (map fst env_counts) (DataFrame (build_rows env_counts)) of
           Inl e \<Rightarrow> \<lparr>printed = out, written = [], raised = Some e\<rparr>
         | Inr df \<Rightarrow>
             \<lparr>printed = out @ [Saved OUTPUT_FILE [''Local Unit Types''], PrintFrame df],
              written = [(OUTPUT_FILE, [(''Local Unit Types'', df)])],
              raised = None\<rparr>))"

definition main :: "world \<Rightarrow> run option" where
  "main w =
     (case fetch_environments w ENVIRONMENTS [] [] of
        None \<Rightarrow> None
      | Some (out, Inl e) \<Rightarrow> Some \<lparr>printed = out, written = [], raised = Some e\<rparr>
      | Some (out, Inr env_counts) \<Rightarrow> Some (main_report env_counts out))"

subsection \<open>Treemap report: process_environment and main\<close>

record urls =
  local_units_url :: string
  country_url :: string

definition ENVIRONMENTS_treemap :: "(string \<times> urls) list" where
  "ENVIRONMENTS_treemap =
     [(''production'',
       \<lparr>local_units_url = ''https://goadmin.ifrc.org/api/v2/local-units/'',
        country_url = ''https://goadmin.ifrc.org/api/v2/country/''\<rparr>),
      (''staging'',
       \<lparr>local_units_url = ''https://goadmin-stage.ifrc.org/api/v2/local-units/'',
        country_url = ''https://goadmin-stage.ifrc.org/api/v2/country/''\<rparr>)]"

definition OUTPUT_FILE_treemap :: string where
  "OUTPUT_FILE_treemap = ''local_units_treemap.xlsx''"

text \<open>The servers a run of the treemap report talks to: two listings, by URL.\<close>

record world_treemap =
  get_local_units :: "string \<Rightarrow> local_unit http_get"
  get_countries :: "string \<Rightarrow> country_entry http_get"

text \<open>
  \<^verbatim>\<open>pd.DataFrame(rows).sort_values(["categories", "Region"]).reset_index(drop=True)\<close>:
  a frame built from no row has no column, and sorting it by a column raises \<^verbatim>\<open>KeyError\<close>
  for the first label.
\<close>

fun cell_str :: "cell \<Rightarrow> string" where
  "cell_str (Str s) = s"
| "cell_str _ = []"

definition row_key :: "row \<Rightarrow> string \<times> string" where
  "row_key r =
     (case (map_of r ''categories'', map_of r ''Region'') of
        (Some c, Some g) \<Rightarrow> (cell_str c, cell_str g)
      | _ \<Rightarrow> ([], []))"

definition sorted_frame :: "row list \<Rightarrow> exn + dataframe" where
  "sorted_frame rows =
     (if map_of (DataFrame rows) ''categories'' = None then Inl (KeyError ''categories'')
      else if map_of (DataFrame rows) ''Region'' = None then Inl (KeyError ''Region'')
      else Inr (DataFrame (sort_key row_key rows)))"

text \<open>The two \<^verbatim>\<open>except\<close> clauses of \<^verbatim>\<open>process_environment\<close>; nothing else is caught.\<close>

definition on_exception ::
  "string \<Rightarrow> log_event list \<Rightarrow> exn \<Rightarrow> log_event list \<times> (exn + dataframe option)" where
  "on_exception env_name out e =
     (case e of
        ConnectionError \<Rightarrow> (out @ [WarnUnreachable env_name], Inr None)
      | HTTPError \<Rightarrow> (out @ [WarnHTTP env_name], Inr None)
      | _ \<Rightarrow> (out, Inl e))"

definition process_environment ::
  "world_treemap \<Rightarrow> string \<Rightarrow> urls \<Rightarrow> (log_event list \<times> (exn + dataframe option)) option" where
  "process_environment w env_name u =
     (case fetch_paginated (get_countries w (country_url u)) (env_name @ ''/Countries'') of
        None \<Rightarrow> None
      | Some (out1, Inl e) \<Rightarrow> Some (on_exception env_name (FetchingCountries # out1) e)
      | Some (out1, Inr countries) \<Rightarrow>
          (let country_to_region = build_country_to_region countries;
               out2 = FetchingCountries # out1
                        @ [Mapped (length country_to_region), FetchingLocalUnits]
           in case fetch_paginated (get_local_units w (local_units_url u))
                     (env_name @ ''/Local Units'') of
                None \<Rightarrow> None
              | Some (out3, Inl e) \<Rightarrow> Some (on_exception env_name (out2 @ out3) e)
              | Some (out3, Inr local_units) \<Rightarrow>
                  (let (type_region_counter, unresolved_countries) =
                         count_type_region country_to_region local_units;
                       out4 = out2 @ out3 @ [TotalLocalUnits (length local_units)]
                                @ (if unresolved_countries \<noteq> {}
                                   then [Unresolved unresolved_countries] else []);
                       rows = map (\<lambda>((type_name, region_name), n).
                                     [(''categories'', Str type_name),
                                      (''Region'', Str region_name),
                                      (''count'', Num (int n))])
                                (sort type_region_counter)
                   in case sorted_frame rows of
                        Inl e \<Rightarrow> Some (on_exception env_name out4 e)
                      | Inr df \<Rightarrow> Some (out4, Inr (Some df)))))"

text \<open>\<^verbatim>\<open>str.capitalize\<close> on ASCII text: the first letter upper case, the others lower case.\<close>

definition upper_char :: "char \<Rightarrow> char" where
  "upper_char c =
     (case map_of (zip ''abcdefghijklmnopqrstuvwxyz'' ''ABCDEFGHIJKLMNOPQRSTUVWXYZ'') c of
        Some u \<Rightarrow> u | None \<Rightarrow> c)"

definition lower_char :: "char \<Rightarrow> char" where
  "lower_char c =
     (case map_of (zip ''ABCDEFGHIJKLMNOPQRSTUVWXYZ'' ''abcdefghijklmnopqrstuvwxyz'') c of
        Some l \<Rightarrow> l | None \<Rightarrow> c)"

definition capitalize :: "string \<Rightarrow> string" where
  "capitalize s = (case s of [] \<Rightarrow> [] | c # cs \<Rightarrow> upper_char c # map lower_char cs)"

type_synonym all_sheets = "(string \<times> dataframe) list"

fun process_environments ::
  "world_treemap \<Rightarrow> (string \<times> urls) list \<Rightarrow> all_sheets \<Rightarrow> log_event list
     \<Rightarrow> (log_event list \<times> (exn + all_sheets)) option" where
  "process_environments w [] all_sheets out = Some (out, Inr all_sheets)"
| "process_environments w ((env_name, u) # envs) all_sheets out =
     (case process_environment w env_name u of
        None \<Rightarrow> None
      | Some (out1, Inl e) \<Rightarrow> Some (out @ [Banner env_name] @ out1, Inl e)
      | Some (out1, Inr None) \<Rightarrow>
          process_environments w envs all_sheets (out @ [Banner env_name] @ out1)
      | Some (out1, Inr (Some df)) \<Rightarrow>
          process_environments w envs (AList.update env_name df all_sheets)
            (out @ [Banner env_name] @ out1 @ [EnvRows env_name (frame_len df), PrintFrame df]))"

definition main_treemap :: "world_treemap \<Rightarrow> run option" where
  "main_treemap w =
     (case process_environments w ENVIRONMENTS_treemap [] [] of
        None \<Rightarrow> None
      | Some (out, Inl e) \<Rightarrow> Some \<lparr>printed = out, written = [], raised = Some e\<rparr>
      | Some (out, Inr all_sheets) \<Rightarrow>
          Some
            (if all_sheets = []
             then \<lparr>printed = out @ [NoEnvironment], written = [], raised = None\<rparr>
             else
               \<lparr>printed = out @ [Saved OUTPUT_FILE_treemap (map fst all_sheets)],
                written =
                  [(OUTPUT_FILE_treemap, map (\<lambda>(env_name, df). (capitalize env_name, df)) all_sheets)],
                raised = None\<rparr>))"

section \<open>Notions used to state the properties\<close>

text \<open>The sum of the counts of the keys that satisfy \<open>P\<close>.\<close>

definition marginal :: "('k \<Rightarrow> bool) \<Rightarrow> 'k counter \<Rightarrow> nat" where
  "marginal P counter = sum_list (map snd (filter (\<lambda>kv. P (fst kv)) counter))"

text \<open>
  The classification rule in the specification's words: the nested type name, verbatim,
  when the type descriptor is present and its name is not empty; the sentinel otherwise.
\<close>

definition spec_category :: "string \<Rightarrow> local_unit \<Rightarrow> string" where
  "spec_category sentinel r =
     (case type_details r of
        None \<Rightarrow> sentinel
      | Some td \<Rightarrow> (case name td of None \<Rightarrow> sentinel | Some n \<Rightarrow> if n = [] then sentinel else n))"

subsection \<open>The fetcher's requests and servers to run it against\<close>

text \<open>The offsets requested, in order, read off what a fetch printed.\<close>

fun requested :: "log_event list \<Rightarrow> nat list" where
  "requested [] = []"
| "requested (Fetching tag offset # out) = offset # requested out"
| "requested (_ # out) = requested out"

text \<open>The records of the page at offset \<open>k * LIMIT\<close> (none when the request fails).\<close>

definition page_at :: "'r http_get \<Rightarrow> nat \<Rightarrow> 'r list" where
  "page_at get k =
     (case get (k * LIMIT) of
        Inl e \<Rightarrow> []
      | Inr data \<Rightarrow> (case results data of None \<Rightarrow> [] | Some xs \<Rightarrow> xs))"

text \<open>
  The request at offset \<open>k * LIMIT\<close> is one after which the loop breaks or is left: it
  raises, or the next offset reaches the count its page reports, or its page is empty.
\<close>

definition stops_at :: "'r http_get \<Rightarrow> nat \<Rightarrow> bool" where
  "stops_at get k =
     (case get (k * LIMIT) of
        Inl e \<Rightarrow> True
      | Inr data \<Rightarrow>
          (case count data of None \<Rightarrow> 0 | Some c \<Rightarrow> c) \<le> int ((k + 1) * LIMIT)
          \<or> (case results data of None \<Rightarrow> [] | Some xs \<Rightarrow> xs) = [])"

text \<open>A server whose pages are never empty and whose reported count stays ahead of the offset.\<close>

definition ever_growing :: "local_unit http_get" where
  "ever_growing offset =
     Inr \<lparr>count = Some (int offset + 100),
          results = Some [\<lparr>type_details = None, country = None\<rparr>]\<rparr>"

text \<open>
  A scripted server, as a test double would be: the i-th request gets the i-th page of a
  list and the same count every time; a request beyond the script raises.
\<close>

definition scripted :: "int \<Rightarrow> 'r list list \<Rightarrow> 'r http_get" where
  "scripted c pages offset =
     (if offset mod LIMIT = 0 \<and> offset div LIMIT < length pages
      then Inr \<lparr>count = Some c, results = Some (pages ! (offset div LIMIT))\<rparr>
      else Inl OtherError)"

text \<open>A server that always reports 120 records and delivers one record per page.\<close>

definition short_pages :: "local_unit http_get" where
  "short_pages offset =
     Inr \<lparr>count = Some 120, results = Some [\<lparr>type_details = None, country = None\<rparr>]\<rparr>"

subsection \<open>An example tally of two environments and the frame written for it\<close>

definition example_env_counts :: env_counts where
  "example_env_counts =
     [(''production'', [(''Office'', 3)]), (''staging'', [(''Branch'', 1), (''Office'', 2)])]"

definition example_frame :: dataframe where
  "example_frame =
     [(''categories'', [Str ''Branch'', Str ''Office'']),
      (''count_production'', [Num 0, Num 3]),
      (''count_staging'', [Num 1, Num 2]),
      (''pct_production'', [RoundPct2 0 3, RoundPct2 3 3]),
      (''waffle_cells_production'', [RoundPct0 0 3, RoundPct0 3 3]),
      (''pct_staging'', [RoundPct2 1 3, RoundPct2 2 3]),
      (''waffle_cells_staging'', [RoundPct0 1 3, RoundPct0 2 3])]"

subsection \<open>Environments that cannot be fetched\<close>

text \<open>
  A fetch fails when it ends in one of the two exceptions the scripts catch; it succeeds
  when it returns records. In the treemap report an environment fails when its country
  fetch fails, or when that one succeeds and its local-unit fetch fails.
\<close>

definition fetch_fails :: "'r http_get \<Rightarrow> string \<Rightarrow> bool" where
  "fetch_fails get tag =
     (case fetch_loop get tag 0 [] [] of
        Some (out, Inl ConnectionError) \<Rightarrow> True
      | Some (out, Inl HTTPError) \<Rightarrow> True
      | _ \<Rightarrow> False)"

definition fetch_succeeds :: "'r http_get \<Rightarrow> string \<Rightarrow> bool" where
  "fetch_succeeds get tag =
     (case fetch_loop get tag 0 [] [] of Some (out, Inr rs) \<Rightarrow> True | _ \<Rightarrow> False)"

definition environment_fails :: "world_treemap \<Rightarrow> string \<Rightarrow> urls \<Rightarrow> bool" where
  "environment_fails w env_name u =
     (fetch_fails (get_countries w (country_url u)) (env_name @ ''/Countries'')
      \<or> fetch_succeeds (get_countries w (country_url u)) (env_name @ ''/Countries'')
        \<and> fetch_fails (get_local_units w (local_units_url u)) (env_name @ ''/Local Units''))"

text \<open>Servers of which no environment can be fetched.\<close>

definition unreachable :: world where
  "unreachable base_url offset =
     (if base_url = ''https://goadmin.ifrc.org/api/v2/local-units/''
      then Inl ConnectionError else Inl HTTPError)"

definition unreachable_treemap :: world_treemap where
  "unreachable_treemap =
     \<lparr>get_local_units = (\<lambda>url offset. Inl HTTPError),
      get_countries = (\<lambda>url offset.
         if url = ''https://goadmin.ifrc.org/api/v2/country/'' then Inl ConnectionError
         else Inr \<lparr>count = Some 1, results = Some [\<lparr>country_id = Some 7, region_id = Some 2\<rparr>]\<rparr>)\<rparr>"

text \<open>
  Production cannot be reached; staging answers every request with
  \<^verbatim>\<open>{"count": 0, "results": []}\<close> (it holds no local unit).
\<close>

definition staging_empty :: world where
  "staging_empty base_url offset =
     (if base_url = ''https://goadmin.ifrc.org/api/v2/local-units/''
      then Inl ConnectionError
      else Inr \<lparr>count = Some 0, results = Some []\<rparr>)"

definition staging_empty_treemap :: world_treemap where
  "staging_empty_treemap =
     \<lparr>get_local_units = (\<lambda>url offset.
         if url = ''https://goadmin.ifrc.org/api/v2/local-units/'' then Inl ConnectionError
         else Inr \<lparr>count = Some 0, results = Some []\<rparr>),
      get_countries = (\<lambda>url offset.
         Inr \<lparr>count = Some 1, results = Some [\<lparr>country_id = Some 7, region_id = Some 2\<rparr>]\<rparr>)\<rparr>"

section \<open>Counters and the two aggregators\<close>

lemma counter_incr_Nil: "counter_incr k [] = [(k, 1)]"
  by (simp add: counter_incr_def counter_get_def)

lemma counter_incr_Cons:
  "counter_incr k ((k', n) # c) = (if k' = k then (k', n + 1) # c else (k', n) # counter_incr k c)"
  by (simp add: counter_incr_def counter_get_def)

lemma marginal_counter_incr:
  "marginal P (counter_incr k c) = marginal P c + (if P k then 1 else 0)"
  by (induction c) (auto simp: marginal_def counter_incr_Nil counter_incr_Cons)

lemma counter_get_incr:
  "counter_get (counter_incr k c) k' = counter_get c k' + (if k' = k then 1 else 0)"
  by (simp add: counter_incr_def counter_get_def update_conv')

lemma marginal_all: "marginal (\<lambda>_. True) c = sum_list (map snd c)"
  by (simp add: marginal_def)

lemma truthy_name_category:
  "(case truthy_name (type_details r) of Some n \<Rightarrow> n | None \<Rightarrow> s) = spec_category s r"
  by (simp add: truthy_name_def spec_category_def split: option.splits)

lemma count_types_step:
  "(case truthy_name (type_details r) of Some n \<Rightarrow> counter_incr n c | None \<Rightarrow> counter_incr s c)
     = counter_incr (spec_category s r) c"
  by (simp add: truthy_name_def spec_category_def split: option.splits)

lemma marginal_count_types_loop:
  "marginal P (count_types_loop c rs)
     = marginal P c + length (filter (\<lambda>r. P (spec_category ''Unknown / No Type'' r)) rs)"
  by (induction rs arbitrary: c) (simp_all add: count_types_step marginal_counter_incr)

lemma counter_get_count_types_loop:
  "counter_get (count_types_loop c rs) k
     = counter_get c k + length (filter (\<lambda>r. spec_category ''Unknown / No Type'' r = k) rs)"
  by (induction rs arbitrary: c) (simp_all add: count_types_step counter_get_incr)

text \<open>One step of the treemap loop, with the two branches of the region test merged.\<close>

lemma count_type_region_step:
  "count_type_region_loop m (c, U) (u # us) =
     count_type_region_loop m
       (counter_incr (spec_category ''Unknown Type'' u,
                      case region_lookup m (country u) of None \<Rightarrow> ''Unknown Region'' | Some g \<Rightarrow> g) c,
        case region_lookup m (country u) of None \<Rightarrow> insert (country u) U | Some g \<Rightarrow> U) us"
  by (simp add: truthy_name_category Let_def split: option.splits)

lemma marginal_count_type_region_loop:
  "marginal P (fst (count_type_region_loop m (c, U) us))
     = marginal P c
       + length (filter (\<lambda>u. P (spec_category ''Unknown Type'' u,
                    case region_lookup m (country u) of None \<Rightarrow> ''Unknown Region'' | Some g \<Rightarrow> g)) us)"
proof (induction us arbitrary: c U)
  case Nil
  show ?case by simp
next
  case (Cons u us)
  show ?case
    unfolding count_type_region_step
    by (simp add: Cons.IH marginal_counter_incr)
qed

lemma unresolved_count_type_region_loop:
  "snd (count_type_region_loop m (c, U) us)
     = U \<union> country ` {u \<in> set us. region_lookup m (country u) = None}"
proof (induction us arbitrary: c U)
  case Nil
  show ?case by simp
next
  case (Cons u us)
  show ?case
    unfolding count_type_region_step
    by (auto simp: Cons.IH split: option.splits)
qed

text \<open>
  C1. For every list of records the counts of a tally add up to the number of records, in
  the tally by type of the simple report and in the tally by (type, region) of the treemap
  report: each record adds one to exactly one key.
\<close>

theorem tally_total:
  "sum_list (map snd (count_types records)) = length records
   \<and> sum_list (map snd (fst (count_type_region country_to_region local_units)))
       = length local_units"
proof
  have "marginal (\<lambda>_. True) (count_types records) = length records"
    unfolding count_types_def marginal_count_types_loop by (simp add: marginal_def)
  then show "sum_list (map snd (count_types records)) = length records"
    by (simp add: marginal_all)
next
  have "marginal (\<lambda>_. True) (fst (count_type_region country_to_region local_units))
          = length local_units"
    unfolding count_type_region_def marginal_count_type_region_loop by (simp add: marginal_def)
  then show "sum_list (map snd (fst (count_type_region country_to_region local_units)))
               = length local_units"
    by (simp add: marginal_all)
qed

theorem tally_total_witness:
  "sum_list (map snd (count_types
      [\<lparr>type_details = Some \<lparr>name = Some ''Office''\<rparr>, country = Some 7\<rparr>,
       \<lparr>type_details = None, country = None\<rparr>,
       \<lparr>type_details = Some \<lparr>name = Some ''Office''\<rparr>, country = Some 9\<rparr>])) = 3
   \<and> sum_list (map snd (fst (count_type_region [(7, ''Asia Pacific'')]
      [\<lparr>type_details = Some \<lparr>name = Some ''Office''\<rparr>, country = Some 7\<rparr>,
       \<lparr>type_details = None, country = None\<rparr>,
       \<lparr>type_details = Some \<lparr>name = Some ''Office''\<rparr>, country = Some 9\<rparr>]))) = 3"
  using tally_total
    [of "[\<lparr>type_details = Some \<lparr>name = Some ''Office''\<rparr>, country = Some 7\<rparr>,
          \<lparr>type_details = None, country = None\<rparr>,
          \<lparr>type_details = Some \<lparr>name = Some ''Office''\<rparr>, country = Some 9\<rparr>]"
        "[(7, ''Asia Pacific'')]"
        "[\<lparr>type_details = Some \<lparr>name = Some ''Office''\<rparr>, country = Some 7\<rparr>,
          \<lparr>type_details = None, country = None\<rparr>,
          \<lparr>type_details = Some \<lparr>name = Some ''Office''\<rparr>, country = Some 9\<rparr>]"]
  by simp

text \<open>
  C4. The simple aggregator counts every record under its nested type name, verbatim, when
  the type descriptor is present and the name is not empty, and under
  \<open>''Unknown / No Type''\<close> otherwise: the count of a key is the number of records of that
  category. The treemap aggregator does the same with \<open>''Unknown Type''\<close>: the counts of a
  type, summed over the regions, are the number of records of that category. A record whose
  type descriptor is null, or whose name is the empty string, is counted under the sentinel.
\<close>

theorem classification:
  "counter_get (count_types records) k
     = length (filter (\<lambda>r. spec_category ''Unknown / No Type'' r = k) records)
   \<and> marginal (\<lambda>key. fst key = t) (fst (count_type_region country_to_region local_units))
     = length (filter (\<lambda>u. spec_category ''Unknown Type'' u = t) local_units)
   \<and> count_types [\<lparr>type_details = None, country = cid\<rparr>] = [(''Unknown / No Type'', 1)]
   \<and> count_types [\<lparr>type_details = Some \<lparr>name = Some ''''\<rparr>, country = cid\<rparr>]
       = [(''Unknown / No Type'', 1)]
   \<and> marginal (\<lambda>key. fst key = ''Unknown Type'')
       (fst (count_type_region country_to_region [\<lparr>type_details = None, country = cid\<rparr>])) = 1
   \<and> marginal (\<lambda>key. fst key = ''Unknown Type'')
       (fst (count_type_region country_to_region
               [\<lparr>type_details = Some \<lparr>name = Some ''''\<rparr>, country = cid\<rparr>])) = 1"
proof -
  have a: "counter_get (count_types records) k
     = length (filter (\<lambda>r. spec_category ''Unknown / No Type'' r = k) records)"
    unfolding count_types_def counter_get_count_types_loop by (simp add: counter_get_def)
  have b: "marginal (\<lambda>key. fst key = t) (fst (count_type_region country_to_region us))
     = length (filter (\<lambda>u. spec_category ''Unknown Type'' u = t) us)" for t us
    unfolding count_type_region_def marginal_count_type_region_loop by (simp add: marginal_def)
  have c: "count_types [\<lparr>type_details = None, country = cid\<rparr>] = [(''Unknown / No Type'', 1)]"
    by (simp add: count_types_def truthy_name_def counter_incr_Nil)
  have d: "count_types [\<lparr>type_details = Some \<lparr>name = Some ''''\<rparr>, country = cid\<rparr>]
       = [(''Unknown / No Type'', 1)]"
    by (simp add: count_types_def truthy_name_def counter_incr_Nil)
  show ?thesis
    using a b [of t local_units] c d
    by (simp add: b spec_category_def)
qed

theorem classification_witness:
  "counter_get (count_types
      [\<lparr>type_details = Some \<lparr>name = Some ''Office''\<rparr>, country = Some 7\<rparr>,
       \<lparr>type_details = Some \<lparr>name = None\<rparr>, country = None\<rparr>,
       \<lparr>type_details = Some \<lparr>name = Some ''Office''\<rparr>, country = Some 9\<rparr>]) ''Office'' = 2
   \<and> marginal (\<lambda>key. fst key = ''Unknown Type'') (fst (count_type_region [(7, ''Asia Pacific'')]
      [\<lparr>type_details = Some \<lparr>name = Some ''Office''\<rparr>, country = Some 7\<rparr>,
       \<lparr>type_details = Some \<lparr>name = None\<rparr>, country = None\<rparr>,
       \<lparr>type_details = Some \<lparr>name = Some ''''\<rparr>, country = Some 9\<rparr>])) = 2"
  using classification
    [of "[\<lparr>type_details = Some \<lparr>name = Some ''Office''\<rparr>, country = Some 7\<rparr>,
          \<lparr>type_details = Some \<lparr>name = None\<rparr>, country = None\<rparr>,
          \<lparr>type_details = Some \<lparr>name = Some ''Office''\<rparr>, country = Some 9\<rparr>]"
        "''Office''" "''Unknown Type''" "[(7, ''Asia Pacific'')]"
        "[\<lparr>type_details = Some \<lparr>name = Some ''Office''\<rparr>, country = Some 7\<rparr>,
          \<lparr>type_details = Some \<lparr>name = None\<rparr>, country = None\<rparr>,
          \<lparr>type_details = Some \<lparr>name = Some ''''\<rparr>, country = Some 9\<rparr>]"]
  by (simp add: spec_category_def)

section \<open>Fetcher\<close>

lemma requested_append: "requested (xs @ ys) = requested xs @ requested ys"
  by (induction xs rule: requested.induct) simp_all

lemma fetch_loop_last:
  assumes "stops_at get k"
  shows "\<exists>out'. fetch_loop get tag (k * LIMIT) acc out =
            Some (out', case get (k * LIMIT) of Inl e \<Rightarrow> Inl e | Inr d \<Rightarrow> Inr (acc @ page_at get k))
          \<and> requested out' = requested out @ [k * LIMIT]"
proof (cases "get (k * LIMIT)")
  case (Inl e)
  then show ?thesis
    by (subst fetch_loop.simps) (simp add: requested_append)
next
  case (Inr d)
  with assms show ?thesis
    by (subst fetch_loop.simps) (auto simp: stops_at_def page_at_def Let_def requested_append)
qed

lemma fetch_loop_next:
  assumes "\<not> stops_at get i"
  shows "\<exists>out'. fetch_loop get tag (i * LIMIT) acc out =
            fetch_loop get tag (Suc i * LIMIT) (acc @ page_at get i) out'
          \<and> requested out' = requested out @ [i * LIMIT]"
proof (cases "get (i * LIMIT)")
  case (Inl e)
  with assms show ?thesis by (simp add: stops_at_def)
next
  case (Inr d)
  with assms show ?thesis
    by (subst fetch_loop.simps)
       (auto simp: stops_at_def page_at_def Let_def requested_append add.commute)
qed

lemma fetch_loop_run:
  assumes "stops_at get k" and "\<forall>j. i \<le> j \<and> j < k \<longrightarrow> \<not> stops_at get j" and "i \<le> k"
  shows "\<exists>out'. fetch_loop get tag (i * LIMIT) acc out =
            Some (out', case get (k * LIMIT) of
                          Inl e \<Rightarrow> Inl e
                        | Inr d \<Rightarrow> Inr (acc @ concat (map (page_at get) [i..<Suc k])))
          \<and> requested out' = requested out @ map (\<lambda>j. j * LIMIT) [i..<Suc k]"
  using assms(2,3)
proof (induction "k - i" arbitrary: i acc out)
  case 0
  then have "i = k" by simp
  then have "[i..<Suc k] = [k]" by simp
  then show ?case
    unfolding \<open>i = k\<close> using fetch_loop_last [OF assms(1), of tag acc out]
    by (cases "get (k * LIMIT)") simp_all
next
  case (Suc n)
  then have lt: "i < k" by simp
  with Suc.prems have "\<not> stops_at get i" by simp
  from fetch_loop_next [OF this, of tag acc out] obtain out1 where
    step: "fetch_loop get tag (i * LIMIT) acc out =
             fetch_loop get tag (Suc i * LIMIT) (acc @ page_at get i) out1"
    and req: "requested out1 = requested out @ [i * LIMIT]" by blast
  have "n = k - Suc i" using Suc.hyps(2) by simp
  moreover have "\<forall>j. Suc i \<le> j \<and> j < k \<longrightarrow> \<not> stops_at get j" using Suc.prems(1) by simp
  moreover have "Suc i \<le> k" using lt by simp
  ultimately obtain out' where
    run: "fetch_loop get tag (Suc i * LIMIT) (acc @ page_at get i) out1 =
            Some (out', case get (k * LIMIT) of
                          Inl e \<Rightarrow> Inl e
                        | Inr d \<Rightarrow> Inr ((acc @ page_at get i)
                                          @ concat (map (page_at get) [Suc i..<Suc k])))"
    and req': "requested out' = requested out1 @ map (\<lambda>j. j * LIMIT) [Suc i..<Suc k]"
    using Suc.hyps(1) [of "Suc i" "acc @ page_at get i" out1] by blast
  have upt: "[i..<Suc k] = i # [Suc i..<Suc k]" using lt by (simp add: upt_conv_Cons)
  show ?case
    using step run req req' by (cases "get (k * LIMIT)") (simp_all add: upt del: upt_Suc)
qed

lemma fetch_loop_returns_stops_aux:
  assumes "fetch_loop get tag offset acc out = Some y"
  shows "\<forall>i. offset = i * LIMIT \<longrightarrow> (\<exists>k. stops_at get k)"
  using assms
proof (induction rule: fetch_loop.raw_induct [rotated 1, consumes 1])
  case (1 f get tag offset acc out y)
  show ?case
  proof (intro allI impI)
    fix i assume i: "offset = i * LIMIT"
    show "\<exists>k. stops_at get k"
    proof (cases "stops_at get i")
      case True
      then show ?thesis by blast
    next
      case False
      then obtain d where d: "get offset = Inr d"
        and c: "\<not> (case count d of None \<Rightarrow> 0 | Some c \<Rightarrow> c) \<le> int (offset + LIMIT)"
        and r: "(case results d of None \<Rightarrow> [] | Some xs \<Rightarrow> xs) \<noteq> []"
        using i by (auto simp: stops_at_def split: sum.splits)
      from "1.hyps" d c r obtain acc' out' where
        "f get tag (offset + LIMIT) acc' out' = Some y"
        by (auto simp: Let_def)
      from "1.IH" [OF this] have "offset + LIMIT = Suc i * LIMIT \<longrightarrow> (\<exists>k. stops_at get k)"
        by blast
      then show ?thesis using i by simp
    qed
  qed
qed

lemma fetch_loop_returns_stops:
  assumes "fetch_loop get tag 0 acc out = Some y"
  shows "\<exists>k. stops_at get k"
  using fetch_loop_returns_stops_aux [OF assms] by simp

lemma fetch_loop_diverges:
  assumes "\<forall>k. \<not> stops_at get k"
  shows "fetch_loop get tag 0 acc out = None"
proof (cases "fetch_loop get tag 0 acc out")
  case None
  then show ?thesis .
next
  case (Some y)
  from fetch_loop_returns_stops [OF this] assms show ?thesis by blast
qed

lemma fetch_loop_from_start:
  assumes "stops_at get k" and "\<forall>j<k. \<not> stops_at get j"
  shows "\<exists>out'. fetch_loop get tag 0 [] [] =
            Some (out', case get (k * LIMIT) of
                          Inl e \<Rightarrow> Inl e
                        | Inr d \<Rightarrow> Inr (concat (map (page_at get) [0..<Suc k])))
          \<and> requested out' = map (\<lambda>j. j * LIMIT) [0..<Suc k]"
  using fetch_loop_run [OF assms(1), of 0 tag "[]" "[]"] assms(2)
  by (cases "get (k * LIMIT)") simp_all

lemma least_stop:
  assumes "\<exists>k. stops_at get k"
  shows "stops_at get (LEAST k. stops_at get k) \<and> (\<forall>j<LEAST k. stops_at get k. \<not> stops_at get j)"
  using assms by (auto intro: LeastI dest: not_less_Least)

lemma fetch_loop_terminates_iff:
  "(fetch_loop get tag 0 [] [] \<noteq> None) = (\<exists>k. stops_at get k)"
proof
  assume "fetch_loop get tag 0 [] [] \<noteq> None"
  then show "\<exists>k. stops_at get k" using fetch_loop_returns_stops by blast
next
  assume "\<exists>k. stops_at get k"
  from least_stop [OF this] have "stops_at get (LEAST k. stops_at get k)"
    and "\<forall>j<LEAST k. stops_at get k. \<not> stops_at get j" by blast+
  from fetch_loop_from_start [OF this, of tag]
  show "fetch_loop get tag 0 [] [] \<noteq> None" by auto
qed

lemma ever_growing_never_stops: "\<not> stops_at ever_growing k"
  by (simp add: stops_at_def ever_growing_def LIMIT_def)

lemma bounded_count_stops:
  assumes "\<forall>j d. get (j * LIMIT) = Inr d \<longrightarrow> (case count d of None \<Rightarrow> 0 | Some c \<Rightarrow> c) \<le> N"
  shows "stops_at get (nat N div LIMIT)"
proof (cases "get (nat N div LIMIT * LIMIT)")
  case (Inl e)
  then show ?thesis by (simp add: stops_at_def)
next
  case (Inr d)
  with assms have "(case count d of None \<Rightarrow> 0 | Some c \<Rightarrow> c) \<le> N" by blast
  moreover have "N \<le> int ((nat N div LIMIT + 1) * LIMIT)"
    by (simp add: LIMIT_def)
  ultimately show ?thesis using Inr by (simp add: stops_at_def)
qed


text \<open>
  C2 (amended). The fetcher returns exactly when some request raises, or gets a page whose
  reported count the next offset reaches, or gets an empty page; it then makes the requests
  at offsets 0, LIMIT, 2 LIMIT, ... up to the first such request and none after it. In
  particular, when every reported count is at most N, it makes at most N div LIMIT + 1
  requests, whatever number of records is delivered.
\<close>

theorem fetch_terminates:
  "((\<exists>r. fetch_all_local_units get base_url = Some r) = (\<exists>k. stops_at get k))
   \<and> ((\<exists>r. fetch_paginated get label = Some r) = (\<exists>k. stops_at get k))
   \<and> (stops_at get k \<and> (\<forall>j<k. \<not> stops_at get j) \<longrightarrow>
        (\<exists>out r. fetch_all_local_units get base_url = Some (out, r)
                 \<and> requested out = map (\<lambda>j. j * LIMIT) [0..<Suc k])
        \<and> (\<exists>out r. fetch_paginated get label = Some (out, r)
                 \<and> requested out = map (\<lambda>j. j * LIMIT) [0..<Suc k]))
   \<and> ((\<forall>j d. get (j * LIMIT) = Inr d \<longrightarrow> (case count d of None \<Rightarrow> 0 | Some c \<Rightarrow> c) \<le> N) \<longrightarrow>
        (\<exists>out r. fetch_all_local_units get base_url = Some (out, r)
                 \<and> length (requested out) \<le> nat N div LIMIT + 1)
        \<and> (\<exists>out r. fetch_paginated get label = Some (out, r)
                 \<and> length (requested out) \<le> nat N div LIMIT + 1))"
proof -
  have iff: "(\<exists>r. fetch_loop get tag 0 [] [] = Some r) = (\<exists>k. stops_at get k)" for tag
    using fetch_loop_terminates_iff [of get tag] by auto
  have first: "\<exists>out r. fetch_loop get tag 0 [] [] = Some (out, r)
                 \<and> requested out = map (\<lambda>j. j * LIMIT) [0..<Suc k]"
    if "stops_at get k" and "\<forall>j<k. \<not> stops_at get j" for tag k
    using fetch_loop_from_start [OF that, of tag] by blast
  have bounded: "\<exists>out r. fetch_loop get tag 0 [] [] = Some (out, r)
                 \<and> length (requested out) \<le> nat N div LIMIT + 1"
    if b: "\<forall>j d. get (j * LIMIT) = Inr d \<longrightarrow> (case count d of None \<Rightarrow> 0 | Some c \<Rightarrow> c) \<le> N"
    for tag
  proof -
    have s: "stops_at get (nat N div LIMIT)" using bounded_count_stops [OF b] .
    then have ex: "\<exists>k. stops_at get k" by blast
    let ?k = "LEAST k. stops_at get k"
    have "?k \<le> nat N div LIMIT" using s by (rule Least_le)
    moreover from first [of ?k tag] least_stop [OF ex] obtain out r where
      "fetch_loop get tag 0 [] [] = Some (out, r)"
      "requested out = map (\<lambda>j. j * LIMIT) [0..<Suc ?k]" by blast
    ultimately show ?thesis by simp
  qed
  show ?thesis
    unfolding fetch_all_local_units_def fetch_paginated_def
    using iff first [of k] bounded by blast
qed

lemma short_pages_stops:
  "stops_at short_pages 2 \<and> \<not> stops_at short_pages 0 \<and> \<not> stops_at short_pages 1"
  by (simp add: stops_at_def short_pages_def LIMIT_def)

theorem fetch_terminates_witness:
  "stops_at short_pages 2 \<and> \<not> stops_at short_pages 0 \<and> \<not> stops_at short_pages 1
   \<and> (\<exists>out r. fetch_all_local_units short_pages ''u'' = Some (out, r)
              \<and> requested out = [0, 50, 100])
   \<and> (\<exists>out r. fetch_paginated short_pages ''u'' = Some (out, r)
              \<and> length (requested out) \<le> 3)"
proof -
  have lt: "\<forall>j<2. \<not> stops_at short_pages j"
    using short_pages_stops by (auto simp: less_Suc_eq numeral_2_eq_2)
  have bound: "\<forall>j d. short_pages (j * LIMIT) = Inr d
                 \<longrightarrow> (case count d of None \<Rightarrow> 0 | Some c \<Rightarrow> c) \<le> 120"
    by (auto simp: short_pages_def)
  have up: "map (\<lambda>j. j * LIMIT) [0..<Suc 2] = [0, 50, 100]"
    by (simp add: LIMIT_def upt_rec)
  have n: "nat 120 div LIMIT + 1 = 3" by (simp add: LIMIT_def)
  show ?thesis
    using fetch_terminates [of short_pages "''u''" "''u''" 2 120] short_pages_stops lt bound up n
    by simp
qed

text \<open>
  C2 as stated fails: against a server whose pages are never empty and whose count grows
  with the offset, neither fetcher ever returns.
\<close>

theorem fetch_ever_growing_counterexample:
  "fetch_all_local_units ever_growing ''u'' = None \<and> fetch_paginated ever_growing ''u'' = None"
  unfolding fetch_all_local_units_def fetch_paginated_def
  using fetch_loop_diverges [of ever_growing] ever_growing_never_stops by blast

lemma scripted_at:
  "j < length pages \<Longrightarrow>
     scripted c pages (j * LIMIT) = Inr \<lparr>count = Some c, results = Some (pages ! j)\<rparr>"
  by (simp add: scripted_def LIMIT_def)

lemma length_concat_full:
  assumes "pages \<noteq> []" and "\<forall>p\<in>set (butlast pages). length p = LIMIT"
  shows "length (concat pages) = (length pages - 1) * LIMIT + length (last pages)"
proof -
  have "pages = butlast pages @ [last pages]" using assms(1) by simp
  then have "length (concat pages) = length (concat (butlast pages)) + length (last pages)"
    by (metis append_Nil2 concat.simps concat_append length_append)
  moreover have "length (concat xs) = length xs * LIMIT" if "\<forall>p\<in>set xs. length p = LIMIT"
    for xs :: "'a list list"
    using that by (induction xs) simp_all
  ultimately show ?thesis using assms(2) by simp
qed

lemma fetch_loop_full_pages:
  assumes ne: "pages \<noteq> []"
    and full: "\<forall>p\<in>set (butlast pages). length p = LIMIT"
    and short: "length (last pages) \<le> LIMIT"
    and last: "last pages \<noteq> [] \<or> length pages = 1"
  shows "\<exists>out. fetch_loop (scripted (int (length (concat pages))) pages) tag 0 [] []
                 = Some (out, Inr (concat pages))
               \<and> requested out = map (\<lambda>j. j * LIMIT) [0..<length pages]"
proof -
  let ?c = "int (length (concat pages))"
  let ?get = "scripted ?c pages"
  let ?k = "length pages - 1"
  have k: "?k < length pages" "Suc ?k = length pages" using ne by simp_all
  have len: "length (concat pages) = ?k * LIMIT + length (last pages)"
    using length_concat_full [OF ne full] .
  have at_k: "?get (?k * LIMIT) = Inr \<lparr>count = Some ?c, results = Some (pages ! ?k)\<rparr>"
    using scripted_at [OF k(1)] .
  have "length (concat pages) \<le> (?k + 1) * LIMIT" using len short by simp
  then have "?c \<le> int ((?k + 1) * LIMIT)" by linarith
  then have stop: "stops_at ?get ?k"
    unfolding stops_at_def at_k by simp
  have cont: "\<forall>j<?k. \<not> stops_at ?get j"
  proof (intro allI impI)
    fix j assume j: "j < ?k"
    then have jl: "j < length pages" by simp
    from j have "pages ! j \<in> set (butlast pages)"
      by (metis in_set_conv_nth length_butlast nth_butlast)
    with full have pj: "length (pages ! j) = LIMIT" by blast
    from j last have "last pages \<noteq> []" by auto
    then have "0 < length (last pages)" by simp
    moreover have "(j + 1) * LIMIT \<le> ?k * LIMIT"
      using j by (intro mult_le_mono1) simp
    ultimately have "(j + 1) * LIMIT < length (concat pages)" using len by linarith
    then have "\<not> ?c \<le> int ((j + 1) * LIMIT)" by linarith
    moreover have "pages ! j \<noteq> []" using pj by (auto simp: LIMIT_def)
    ultimately show "\<not> stops_at ?get j"
      unfolding stops_at_def scripted_at [OF jl] by simp
  qed
  have pages_eq: "map (page_at ?get) [0..<length pages] = pages"
    by (rule nth_equalityI) (simp_all add: page_at_def scripted_at)
  from fetch_loop_from_start [OF stop cont, of tag] show ?thesis
    unfolding at_k k(2) pages_eq by simp
qed

text \<open>
  C3 (amended). For every scripted sequence of pages in which each page but the last holds
  exactly LIMIT records and the last holds between 1 and LIMIT records (or the only page is
  empty), every response reporting the total number of records as its count, the fetcher
  returns exactly these records, in order, and makes one request per page and no more. The
  count is read from each response; here they all agree with the first.
\<close>

theorem fetch_full_pages:
  assumes "pages \<noteq> []"
    and "\<forall>p\<in>set (butlast pages). length p = LIMIT"
    and "length (last pages) \<le> LIMIT"
    and "last pages \<noteq> [] \<or> length pages = 1"
  shows "(\<exists>out. fetch_all_local_units (scripted (int (length (concat pages))) pages) base_url
                  = Some (out, Inr (concat pages))
                \<and> requested out = map (\<lambda>j. j * LIMIT) [0..<length pages])
         \<and> (\<exists>out. fetch_paginated (scripted (int (length (concat pages))) pages) label
                  = Some (out, Inr (concat pages))
                \<and> requested out = map (\<lambda>j. j * LIMIT) [0..<length pages])"
  unfolding fetch_all_local_units_def fetch_paginated_def
  using fetch_loop_full_pages [OF assms] by blast

theorem fetch_full_pages_witness:
  "[replicate 50 (1::nat), replicate 10 2] \<noteq> []
   \<and> length (replicate 50 (1::nat)) = LIMIT
   \<and> length (last [replicate 50 (1::nat), replicate 10 2]) \<le> LIMIT
   \<and> last [replicate 50 (1::nat), replicate 10 2] \<noteq> []
   \<and> (\<exists>out. fetch_all_local_units (scripted 60 [replicate 50 (1::nat), replicate 10 2]) ''u''
               = Some (out, Inr (replicate 50 1 @ replicate 10 2))
             \<and> requested out = [0, 50])"
proof -
  have up: "map (\<lambda>j. j * LIMIT) [0..<2] = [0, 50]"
    by (simp add: LIMIT_def upt_rec)
  show ?thesis
    using fetch_full_pages [of "[replicate 50 (1::nat), replicate 10 2]" "''u''" "''u''"] up
    by (simp add: LIMIT_def)
qed

text \<open>
  C3 as stated fails: two pages of one record each, with count 2, sum to the count, but the
  fetcher returns after the first page with one record, since the offset advances by LIMIT
  whatever the size of the page.
\<close>

theorem fetch_short_pages_counterexample:
  "int (length (concat [[\<lparr>type_details = None, country = Some 1\<rparr>],
                        [\<lparr>type_details = None, country = Some 2\<rparr>]])) = 2
   \<and> fetch_all_local_units
       (scripted 2 [[\<lparr>type_details = None, country = Some 1\<rparr>],
                    [\<lparr>type_details = None, country = Some 2\<rparr>]]) ''u''
     = Some ([Fetching ''u'' 0, Got 1 1 2], Inr [\<lparr>type_details = None, country = Some 1\<rparr>])"
  by (simp add: fetch_all_local_units_def fetch_loop.simps scripted_def LIMIT_def)

section \<open>Region resolver\<close>

lemma region_label_table:
  "region_label g =
     (if g = 0 then ''Africa'' else if g = 1 then ''Americas'' else if g = 2 then ''Asia Pacific''
      else if g = 3 then ''Europe'' else if g = 4 then ''MENA''
      else ''Unknown ('' @ str_int g @ '')'')"
  by (simp add: region_label_def REGION_MAP_def)

lemma region_label_not_sentinel: "region_label g \<noteq> ''Unknown Region''"
  by (simp add: region_label_table)

lemma build_loop_append:
  "build_country_to_region_loop m (xs @ ys)
     = build_country_to_region_loop (build_country_to_region_loop m xs) ys"
  by (induction xs arbitrary: m) simp_all

lemma build_loop_keeps:
  assumes "\<forall>c\<in>set cs. country_id c = Some i \<longrightarrow> region_id c = None"
  shows "map_of (build_country_to_region_loop m cs) i = map_of m i"
  using assms
proof (induction cs arbitrary: m)
  case Nil
  show ?case by simp
next
  case (Cons c cs)
  then have "map_of (build_country_to_region_loop m (c # cs)) i
               = map_of (case (country_id c, region_id c) of
                           (Some i, Some g) \<Rightarrow> AList.update i (region_label g) m
                         | _ \<Rightarrow> m) i"
    by simp
  also have "\<dots> = map_of m i"
    using Cons.prems by (auto simp: update_conv' split: option.splits)
  finally show ?case .
qed

lemma map_of_build_last:
  assumes "countries = before @ c # after"
    and "country_id c = Some i" and "region_id c = Some g"
    and "\<forall>c'\<in>set after. country_id c' = Some i \<longrightarrow> region_id c' = None"
  shows "map_of (build_country_to_region countries) i = Some (region_label g)"
proof -
  have "build_country_to_region countries
          = build_country_to_region_loop
              (AList.update i (region_label g) (build_country_to_region_loop [] before)) after"
    unfolding build_country_to_region_def assms(1) build_loop_append
    using assms(2,3) by simp
  then show ?thesis
    by (simp add: build_loop_keeps [OF assms(4)] update_conv')
qed

lemma build_loop_values:
  assumes "map_of (build_country_to_region_loop m cs) i = Some v"
  shows "map_of m i = Some v \<or> (\<exists>g. v = region_label g)"
  using assms
proof (induction cs arbitrary: m)
  case Nil
  then show ?case by simp
next
  case (Cons c cs)
  from Cons.IH [OF Cons.prems [simplified]] show ?case
    by (auto simp: update_conv' split: option.splits if_splits)
qed

lemma build_never_sentinel:
  "region_lookup (build_country_to_region cs) cid \<noteq> Some ''Unknown Region''"
proof (cases cid)
  case None
  then show ?thesis by (simp add: region_lookup_def)
next
  case (Some i)
  show ?thesis
  proof
    assume "region_lookup (build_country_to_region cs) cid = Some ''Unknown Region''"
    then have "map_of (build_country_to_region_loop [] cs) i = Some ''Unknown Region''"
      using Some by (simp add: region_lookup_def build_country_to_region_def)
    from build_loop_values [OF this] obtain g where "''Unknown Region'' = region_label g"
      by auto
    with region_label_not_sentinel [of g] show False by simp
  qed
qed

text \<open>
  C5. The region resolver maps a country id to the name that the 5-entry table gives for
  its region code (code 2 gives \<open>''Asia Pacific''\<close>) and, for a code outside the table, to
  \<open>''Unknown (<code>)''\<close>; the code is the one of the last entry of the country list that
  carries the id and a region (the only one when ids are not repeated). For the local
  units, the set of unresolved ids is exactly the set of country ids not found in the
  mapping (a null country among them), each once, and the units counted under
  \<open>''Unknown Region''\<close> are exactly the units whose country id is not found.
\<close>

theorem region_resolution:
  "(countries = before @ c # after \<and> country_id c = Some i \<and> region_id c = Some g
      \<and> (\<forall>c'\<in>set after. country_id c' = Some i \<longrightarrow> region_id c' = None)
    \<longrightarrow> map_of (build_country_to_region countries) i =
          Some (if g = 0 then ''Africa'' else if g = 1 then ''Americas''
                else if g = 2 then ''Asia Pacific'' else if g = 3 then ''Europe''
                else if g = 4 then ''MENA'' else ''Unknown ('' @ str_int g @ '')''))
   \<and> snd (count_type_region (build_country_to_region countries) local_units)
       = country ` {u \<in> set local_units.
                      region_lookup (build_country_to_region countries) (country u) = None}
   \<and> marginal (\<lambda>key. snd key = ''Unknown Region'')
        (fst (count_type_region (build_country_to_region countries) local_units))
       = length (filter (\<lambda>u. region_lookup (build_country_to_region countries) (country u) = None)
                   local_units)"
proof (intro conjI impI)
  assume h: "countries = before @ c # after \<and> country_id c = Some i \<and> region_id c = Some g
      \<and> (\<forall>c'\<in>set after. country_id c' = Some i \<longrightarrow> region_id c' = None)"
  then have "map_of (build_country_to_region countries) i = Some (region_label g)"
    using map_of_build_last [of countries before c after i g] by blast
  then show "map_of (build_country_to_region countries) i =
          Some (if g = 0 then ''Africa'' else if g = 1 then ''Americas''
                else if g = 2 then ''Asia Pacific'' else if g = 3 then ''Europe''
                else if g = 4 then ''MENA'' else ''Unknown ('' @ str_int g @ '')'')"
    unfolding region_label_table by simp
next
  show "snd (count_type_region (build_country_to_region countries) local_units)
       = country ` {u \<in> set local_units.
                      region_lookup (build_country_to_region countries) (country u) = None}"
    unfolding count_type_region_def unresolved_count_type_region_loop by simp
next
  let ?m = "build_country_to_region countries"
  let ?A = "\<lambda>u. (case region_lookup ?m (country u) of None \<Rightarrow> ''Unknown Region'' | Some g \<Rightarrow> g)
              = ''Unknown Region''"
  let ?B = "\<lambda>u. region_lookup ?m (country u) = None"
  have step1: "marginal (\<lambda>key. snd key = ''Unknown Region'')
                 (fst (count_type_region ?m local_units)) = length (filter ?A local_units)"
    unfolding count_type_region_def marginal_count_type_region_loop
    by (simp add: marginal_def)
  have step2: "filter ?A local_units = filter ?B local_units"
  proof (rule filter_cong [OF refl])
    fix u
    show "?A u = ?B u"
      using build_never_sentinel [of countries "country u"] by (auto split: option.splits)
  qed
  show "marginal (\<lambda>key. snd key = ''Unknown Region'') (fst (count_type_region ?m local_units))
       = length (filter ?B local_units)"
    by (rule trans [OF step1]) (rule arg_cong [OF step2])
qed

lemma str_int_9: "str_int 9 = ''9''"
  by (simp add: str_int_def str_nat.simps digit_char_def)

theorem region_resolution_witness:
  "[\<lparr>country_id = Some 8, region_id = Some 2\<rparr>, \<lparr>country_id = Some 8, region_id = Some 9\<rparr>,
    \<lparr>country_id = Some 7, region_id = Some 2\<rparr>]
     = [\<lparr>country_id = Some 8, region_id = Some 2\<rparr>] @ \<lparr>country_id = Some 8, region_id = Some 9\<rparr>
         # [\<lparr>country_id = Some 7, region_id = Some 2\<rparr>]
   \<and> country_id \<lparr>country_id = Some 7, region_id = Some 2\<rparr> \<noteq> Some 8
   \<and> map_of (build_country_to_region
        [\<lparr>country_id = Some 8, region_id = Some 2\<rparr>, \<lparr>country_id = Some 8, region_id = Some 9\<rparr>,
         \<lparr>country_id = Some 7, region_id = Some 2\<rparr>]) 8
       = Some ''Unknown (9)''
   \<and> map_of (build_country_to_region
        [\<lparr>country_id = Some 8, region_id = Some 2\<rparr>, \<lparr>country_id = Some 8, region_id = Some 9\<rparr>,
         \<lparr>country_id = Some 7, region_id = Some 2\<rparr>]) 7
       = Some ''Asia Pacific''
   \<and> snd (count_type_region (build_country_to_region
        [\<lparr>country_id = Some 8, region_id = Some 2\<rparr>, \<lparr>country_id = Some 8, region_id = Some 9\<rparr>,
         \<lparr>country_id = Some 7, region_id = Some 2\<rparr>])
        [\<lparr>type_details = None, country = Some 7\<rparr>, \<lparr>type_details = None, country = None\<rparr>,
         \<lparr>type_details = None, country = Some 5\<rparr>, \<lparr>type_details = None, country = Some 5\<rparr>])
       = {None, Some 5}
   \<and> marginal (\<lambda>key. snd key = ''Unknown Region'') (fst (count_type_region (build_country_to_region
        [\<lparr>country_id = Some 8, region_id = Some 2\<rparr>, \<lparr>country_id = Some 8, region_id = Some 9\<rparr>,
         \<lparr>country_id = Some 7, region_id = Some 2\<rparr>])
        [\<lparr>type_details = None, country = Some 7\<rparr>, \<lparr>type_details = None, country = None\<rparr>,
         \<lparr>type_details = None, country = Some 5\<rparr>, \<lparr>type_details = None, country = Some 5\<rparr>]))
       = 3"
proof -
  let ?c = "\<lparr>country_id = Some 8, region_id = Some 9\<rparr>"
  let ?cs = "[\<lparr>country_id = Some 8, region_id = Some 2\<rparr>, ?c,
              \<lparr>country_id = Some 7, region_id = Some 2\<rparr>]"
  let ?us = "[\<lparr>type_details = None, country = Some 7\<rparr>, \<lparr>type_details = None, country = None\<rparr>,
              \<lparr>type_details = None, country = Some 5\<rparr>, \<lparr>type_details = None, country = Some 5\<rparr>]"
  have b: "build_country_to_region ?cs = [(8, ''Unknown (9)''), (7, ''Asia Pacific'')]"
    by (simp add: build_country_to_region_def region_label_table str_int_9)
  have t: "count_type_region [(8, ''Unknown (9)''), (7, ''Asia Pacific'')] ?us
             = ([((''Unknown Type'', ''Asia Pacific''), 1), ((''Unknown Type'', ''Unknown Region''), 3)],
                {None, Some 5})"
    by (simp add: count_type_region_def truthy_name_def region_lookup_def counter_incr_Nil
          counter_incr_Cons insert_commute)
  show ?thesis
    using region_resolution
      [of ?cs "[\<lparr>country_id = Some 8, region_id = Some 2\<rparr>]" ?c
          "[\<lparr>country_id = Some 7, region_id = Some 2\<rparr>]" 8 9 ?us, THEN conjunct1]
    by (simp add: b t str_int_9 marginal_def)
qed

section \<open>Simple report: rows and count columns\<close>

lemma all_types_set: "set (all_types ec) = (\<Union>(e, c)\<in>set ec. fst ` set c)"
  by (auto simp: all_types_def)

lemma all_types_sorted: "sorted (all_types ec) \<and> distinct (all_types ec)"
  by (simp add: all_types_def)

lemma add_counts_other:
  assumes "\<forall>e. k \<noteq> ''count_'' @ e"
  shows "map_of (add_counts ec t envs r) k = map_of r k"
  using assms
proof (induction envs arbitrary: r)
  case Nil
  show ?case by simp
next
  case (Cons p envs)
  obtain e u where p: "p = (e, u)" by (cases p)
  from Cons.prems have "k \<noteq> ''count_'' @ e" by blast
  then show ?case
    by (simp add: p Cons.IH [OF Cons.prems] update_conv' split: option.splits)
qed

lemma add_counts_count:
  assumes "map_of ec e = Some counts" and k: "k = ''count_'' @ e"
  shows "map_of (add_counts ec t envs r) k =
           (if e \<in> fst ` set envs then Some (Num (int (counter_get counts t)))
            else map_of r k)"
proof (induction envs arbitrary: r)
  case Nil
  show ?case by simp
next
  case (Cons p envs)
  obtain e' u where p: "p = (e', u)" by (cases p)
  have key: "(''count_'' @ e' = k) = (e' = e)" by (simp add: k)
  show ?case
  proof (cases "e' = e")
    case True
    then show ?thesis using assms(1) key by (simp add: p Cons.IH update_conv')
  next
    case False
    then show ?thesis using key
      by (auto simp: p Cons.IH update_conv' split: option.splits)
  qed
qed

lemma build_rows_categories:
  "map (\<lambda>r. map_of r ''categories'') (build_rows ec) = map (\<lambda>t. Some (Str t)) (all_types ec)"
  by (simp add: build_rows_def add_counts_other comp_def)

lemma build_rows_count:
  assumes "map_of ec e = Some counts" and "e \<in> fst ` set ENVIRONMENTS"
  shows "map (\<lambda>r. map_of r (''count_'' @ e)) (build_rows ec)
           = map (\<lambda>t. Some (Num (int (counter_get counts t)))) (all_types ec)"
proof -
  have "map_of (add_counts ec t ENVIRONMENTS r) (''count_'' @ e)
          = Some (Num (int (counter_get counts t)))" for t r
    using add_counts_count [OF assms(1) refl, of t ENVIRONMENTS r] assms(2) by simp
  then show ?thesis by (simp add: build_rows_def comp_def)
qed

lemma frame_columns_set: "set (frame_columns rows) = (\<Union>r\<in>set rows. fst ` set r)"
  by (auto simp: frame_columns_def)

lemma DataFrame_column:
  "map_of (DataFrame rows) k =
     (if k \<in> (\<Union>r\<in>set rows. fst ` set r)
      then Some (map (\<lambda>r. case map_of r k of None \<Rightarrow> NaN | Some v \<Rightarrow> v) rows) else None)"
  unfolding DataFrame_def map_of_map_restrict frame_columns_set [symmetric]
  by (simp add: restrict_map_def)

lemma DataFrame_column_full:
  assumes "rows \<noteq> []" and "map (\<lambda>r. map_of r k) rows = map (\<lambda>x. Some (f x)) xs"
  shows "map_of (DataFrame rows) k = Some (map f xs)"
proof -
  have len: "length rows = length xs" using assms(2) by (metis length_map)
  have each: "map_of (rows ! n) k = Some (f (xs ! n))" if "n < length rows" for n
    using that assms(2) len by (metis nth_map)
  from assms(1) have "0 < length rows" by simp
  from each [OF this] have "k \<in> fst ` set (rows ! 0)"
    by (metis map_of_SomeD fst_conv image_eqI)
  then have "k \<in> (\<Union>r\<in>set rows. fst ` set r)"
    using \<open>0 < length rows\<close> nth_mem by blast
  moreover have "map (\<lambda>r. case map_of r k of None \<Rightarrow> NaN | Some v \<Rightarrow> v) rows = map f xs"
    by (rule nth_equalityI) (simp_all add: len each [unfolded len])
  ultimately show ?thesis by (simp add: DataFrame_column)
qed

lemma add_derived_keeps:
  assumes "add_derived envs df = Inr df'"
    and "\<forall>e. k \<noteq> ''pct_'' @ e \<and> k \<noteq> ''waffle_cells_'' @ e"
  shows "map_of df' k = map_of df k"
  using assms(1)
proof (induction envs arbitrary: df)
  case Nil
  then show ?case by simp
next
  case (Cons e envs)
  from assms(2) have "k \<noteq> ''pct_'' @ e" "k \<noteq> ''waffle_cells_'' @ e" by blast+
  with Cons show ?case
    by (auto simp: Let_def update_conv' split: option.splits)
qed

lemma main_report_written:
  assumes "written (main_report ec out) = [(file, [(sheet, df)])]"
  shows "build_rows ec \<noteq> []
         \<and> add_derived (map fst ec) (DataFrame (build_rows ec)) = Inr df"
proof -
  from assms have ne: "ec \<noteq> []" by (auto simp: main_report_def)
  with assms have d: "add_derived (map fst ec) (DataFrame (build_rows ec)) = Inr df"
    by (auto simp: main_report_def split: sum.splits)
  have "build_rows ec \<noteq> []"
  proof
    assume "build_rows ec = []"
    then have "DataFrame (build_rows ec) = []" by (simp add: DataFrame_def frame_columns_def)
    with d ne show False by (cases ec) auto
  qed
  with d show ?thesis by simp
qed

lemma example_all_types: "all_types example_env_counts = [''Branch'', ''Office'']"
  by code_simp

lemma example_written:
  "written (main_report example_env_counts [])
     = [(''local_units_summary.xlsx'', [(''Local Unit Types'', example_frame)])]"
  by code_simp

text \<open>
  C9. In the simple report the row index is the union of the keys of the tallies of the
  environments that were fetched, sorted in lexicographic order, each key once: this is the
  list the rows are built from, it is the \<open>categories\<close> entry of the rows in that order,
  and it is the \<open>categories\<close> column of the frame written to the spreadsheet.
\<close>

theorem row_index:
  "set (all_types env_counts) = (\<Union>(env_name, counts)\<in>set env_counts. fst ` set counts)
   \<and> sorted (all_types env_counts) \<and> distinct (all_types env_counts)
   \<and> map (\<lambda>r. map_of r ''categories'') (build_rows env_counts)
       = map (\<lambda>t. Some (Str t)) (all_types env_counts)
   \<and> (written (main_report env_counts out) = [(file, [(sheet, df)])]
      \<longrightarrow> map_of df ''categories'' = Some (map Str (all_types env_counts)))"
proof (intro conjI impI)
  assume w: "written (main_report env_counts out) = [(file, [(sheet, df)])]"
  from main_report_written [OF w] have ne: "build_rows env_counts \<noteq> []"
    and d: "add_derived (map fst env_counts) (DataFrame (build_rows env_counts)) = Inr df"
    by simp_all
  have "map_of df ''categories'' = map_of (DataFrame (build_rows env_counts)) ''categories''"
    by (rule add_derived_keeps [OF d]) simp
  also have "\<dots> = Some (map Str (all_types env_counts))"
    by (rule DataFrame_column_full [OF ne build_rows_categories])
  finally show "map_of df ''categories'' = Some (map Str (all_types env_counts))" .
qed (simp_all add: all_types_set all_types_sorted build_rows_categories)

theorem row_index_witness:
  "written (main_report example_env_counts [])
     = [(''local_units_summary.xlsx'', [(''Local Unit Types'', example_frame)])]
   \<and> all_types example_env_counts = [''Branch'', ''Office'']
   \<and> map_of example_frame ''categories'' = Some [Str ''Branch'', Str ''Office'']"
  using row_index [of example_env_counts "[]" "''local_units_summary.xlsx''"
                      "''Local Unit Types''" example_frame]
    example_written example_all_types
  by simp

text \<open>
  C10. In the simple report, for every environment that was fetched and every key of the
  row index, the count column of the environment holds the count of the key in the
  environment's tally, which is 0 for a key the tally does not have: in the rows, and in
  the frame written to the spreadsheet.
\<close>

theorem count_columns:
  "map_of env_counts env_name = Some counts \<and> env_name \<in> fst ` set ENVIRONMENTS
   \<longrightarrow> map (\<lambda>r. map_of r (''count_'' @ env_name)) (build_rows env_counts)
         = map (\<lambda>t. Some (Num (int (counter_get counts t)))) (all_types env_counts)
       \<and> (\<forall>t. t \<notin> fst ` set counts \<longrightarrow> counter_get counts t = 0)
       \<and> (written (main_report env_counts out) = [(file, [(sheet, df)])]
          \<longrightarrow> map_of df (''count_'' @ env_name)
                = Some (map (\<lambda>t. Num (int (counter_get counts t))) (all_types env_counts)))"
proof (intro impI conjI allI)
  assume h: "map_of env_counts env_name = Some counts \<and> env_name \<in> fst ` set ENVIRONMENTS"
  then have m: "map_of env_counts env_name = Some counts"
    and e: "env_name \<in> fst ` set ENVIRONMENTS" by simp_all
  show rows: "map (\<lambda>r. map_of r (''count_'' @ env_name)) (build_rows env_counts)
         = map (\<lambda>t. Some (Num (int (counter_get counts t)))) (all_types env_counts)"
    by (rule build_rows_count [OF m e])
  {
    fix t assume "t \<notin> fst ` set counts"
    then have "map_of counts t = None" by (simp add: map_of_eq_None_iff)
    then show "counter_get counts t = 0" by (simp add: counter_get_def)
  }
  assume w: "written (main_report env_counts out) = [(file, [(sheet, df)])]"
  from main_report_written [OF w] have ne: "build_rows env_counts \<noteq> []"
    and d: "add_derived (map fst env_counts) (DataFrame (build_rows env_counts)) = Inr df"
    by simp_all
  have "map_of df (''count_'' @ env_name)
          = map_of (DataFrame (build_rows env_counts)) (''count_'' @ env_name)"
    by (rule add_derived_keeps [OF d]) simp
  also have "\<dots> = Some (map (\<lambda>t. Num (int (counter_get counts t))) (all_types env_counts))"
    by (rule DataFrame_column_full [OF ne rows])
  finally show "map_of df (''count_'' @ env_name)
                = Some (map (\<lambda>t. Num (int (counter_get counts t))) (all_types env_counts))" .
qed

theorem count_columns_witness:
  "map_of example_env_counts ''production'' = Some [(''Office'', 3)]
   \<and> ''production'' \<in> fst ` set ENVIRONMENTS
   \<and> ''Branch'' \<notin> fst ` set [(''Office'', 3::nat)]
   \<and> written (main_report example_env_counts [])
       = [(''local_units_summary.xlsx'', [(''Local Unit Types'', example_frame)])]
   \<and> map_of example_frame ''count_production'' = Some [Num 0, Num 3]"
proof -
  have m: "map_of example_env_counts ''production'' = Some [(''Office'', 3)]"
    by (simp add: example_env_counts_def)
  have e: "''production'' \<in> fst ` set ENVIRONMENTS"
    by (simp add: ENVIRONMENTS_def)
  have c: "map (\<lambda>t. Num (int (counter_get [(''Office'', 3)] t))) [''Branch'', ''Office'']
             = [Num 0, Num 3]"
    by (simp add: counter_get_def)
  show ?thesis
    using count_columns [of example_env_counts "''production''" "[(''Office'', 3)]" "[]"
                            "''local_units_summary.xlsx''" "''Local Unit Types''" example_frame]
      m e c example_written example_all_types
    by simp
qed

section \<open>Runs: unreachable and empty environments\<close>

lemma fetch_failsD:
  assumes "fetch_fails get tag"
  shows "\<exists>out. fetch_loop get tag 0 [] [] = Some (out, Inl ConnectionError)
             \<or> fetch_loop get tag 0 [] [] = Some (out, Inl HTTPError)"
  using assms unfolding fetch_fails_def
  by (auto split: option.splits sum.splits exn.splits prod.splits)

lemma fetch_succeedsD:
  assumes "fetch_succeeds get tag"
  shows "\<exists>out rs. fetch_loop get tag 0 [] [] = Some (out, Inr rs)"
  using assms unfolding fetch_succeeds_def
  by (auto split: option.splits sum.splits prod.splits)

lemma fetch_environments_skip:
  assumes "fetch_fails (w base_url) base_url"
  shows "\<exists>out'. fetch_environments w ((env_name, base_url) # envs) ec out
                  = fetch_environments w envs ec out'"
  using fetch_failsD [OF assms]
  by (auto simp: fetch_all_local_units_def)

lemma process_environment_fails:
  assumes "environment_fails w env_name u"
  shows "\<exists>out. process_environment w env_name u = Some (out, Inr None)"
  using assms unfolding environment_fails_def
proof
  assume "fetch_fails (get_countries w (country_url u)) (env_name @ ''/Countries'')"
  from fetch_failsD [OF this] show ?thesis
    by (auto simp: process_environment_def fetch_paginated_def on_exception_def)
next
  assume "fetch_succeeds (get_countries w (country_url u)) (env_name @ ''/Countries'')
        \<and> fetch_fails (get_local_units w (local_units_url u)) (env_name @ ''/Local Units'')"
  then have s: "fetch_succeeds (get_countries w (country_url u)) (env_name @ ''/Countries'')"
    and f: "fetch_fails (get_local_units w (local_units_url u)) (env_name @ ''/Local Units'')"
    by simp_all
  from fetch_succeedsD [OF s] fetch_failsD [OF f] show ?thesis
    by (auto simp: process_environment_def fetch_paginated_def on_exception_def Let_def)
qed

lemma process_environments_skip:
  assumes "environment_fails w env_name u"
  shows "\<exists>out'. process_environments w ((env_name, u) # envs) sheets out
                  = process_environments w envs sheets out'"
  using process_environment_fails [OF assms] by auto

text \<open>
  C8. If every environment fails to fetch (each fetch ends in a connection error or an
  HTTP error), the run prints the final error message last and returns without raising and
  without writing a file, in the simple report and in the treemap report.
\<close>

theorem no_environment_no_file:
  "((\<forall>(env_name, base_url)\<in>set ENVIRONMENTS. fetch_fails (w base_url) base_url)
      \<longrightarrow> (\<exists>out. main w = Some \<lparr>printed = out @ [NoEnvironment], written = [], raised = None\<rparr>))
   \<and> ((\<forall>(env_name, u)\<in>set ENVIRONMENTS_treemap. environment_fails wt env_name u)
      \<longrightarrow> (\<exists>out. main_treemap wt
                   = Some \<lparr>printed = out @ [NoEnvironment], written = [], raised = None\<rparr>))"
proof (intro conjI impI)
  let ?p = "''https://goadmin.ifrc.org/api/v2/local-units/''"
  let ?s = "''https://goadmin-stage.ifrc.org/api/v2/local-units/''"
  assume "\<forall>(env_name, base_url)\<in>set ENVIRONMENTS. fetch_fails (w base_url) base_url"
  then have p: "fetch_fails (w ?p) ?p" and s: "fetch_fails (w ?s) ?s"
    by (simp_all add: ENVIRONMENTS_def)
  from fetch_environments_skip [of w ?p "''production''" "[(''staging'', ?s)]" "[]" "[]", OF p]
  obtain out1 where
    "fetch_environments w ENVIRONMENTS [] [] = fetch_environments w [(''staging'', ?s)] [] out1"
    unfolding ENVIRONMENTS_def by blast
  moreover from fetch_environments_skip [of w ?s "''staging''" "[]" "[]" out1, OF s]
  obtain out2 where
    "fetch_environments w [(''staging'', ?s)] [] out1 = fetch_environments w [] [] out2"
    by blast
  ultimately have "fetch_environments w ENVIRONMENTS [] [] = Some (out2, Inr [])" by simp
  then show "\<exists>out. main w = Some \<lparr>printed = out @ [NoEnvironment], written = [], raised = None\<rparr>"
    by (simp add: main_def main_report_def)
next
  let ?p = "\<lparr>local_units_url = ''https://goadmin.ifrc.org/api/v2/local-units/'',
             country_url = ''https://goadmin.ifrc.org/api/v2/country/''\<rparr>"
  let ?s = "\<lparr>local_units_url = ''https://goadmin-stage.ifrc.org/api/v2/local-units/'',
             country_url = ''https://goadmin-stage.ifrc.org/api/v2/country/''\<rparr>"
  assume "\<forall>(env_name, u)\<in>set ENVIRONMENTS_treemap. environment_fails wt env_name u"
  then have p: "environment_fails wt ''production'' ?p"
    and s: "environment_fails wt ''staging'' ?s"
    by (simp_all add: ENVIRONMENTS_treemap_def)
  from process_environments_skip [of wt "''production''" ?p "[(''staging'', ?s)]" "[]" "[]", OF p]
  obtain out1 where
    "process_environments wt ENVIRONMENTS_treemap [] []
       = process_environments wt [(''staging'', ?s)] [] out1"
    unfolding ENVIRONMENTS_treemap_def by blast
  moreover from process_environments_skip [of wt "''staging''" ?s "[]" "[]" out1, OF s]
  obtain out2 where
    "process_environments wt [(''staging'', ?s)] [] out1 = process_environments wt [] [] out2"
    by blast
  ultimately have "process_environments wt ENVIRONMENTS_treemap [] [] = Some (out2, Inr [])"
    by simp
  then show "\<exists>out. main_treemap wt
                   = Some \<lparr>printed = out @ [NoEnvironment], written = [], raised = None\<rparr>"
    by (simp add: main_treemap_def)
qed

lemma unreachable_fails:
  "\<forall>(env_name, base_url)\<in>set ENVIRONMENTS. fetch_fails (unreachable base_url) base_url"
  by (simp add: ENVIRONMENTS_def fetch_fails_def fetch_loop.simps unreachable_def)

lemma unreachable_treemap_fails:
  "\<forall>(env_name, u)\<in>set ENVIRONMENTS_treemap. environment_fails unreachable_treemap env_name u"
  by (simp add: ENVIRONMENTS_treemap_def environment_fails_def fetch_fails_def fetch_succeeds_def
        fetch_loop.simps unreachable_treemap_def LIMIT_def)

theorem no_environment_no_file_witness:
  "fetch_fails (unreachable ''https://goadmin.ifrc.org/api/v2/local-units/'')
     ''https://goadmin.ifrc.org/api/v2/local-units/''
   \<and> fetch_fails (unreachable ''https://goadmin-stage.ifrc.org/api/v2/local-units/'')
     ''https://goadmin-stage.ifrc.org/api/v2/local-units/''
   \<and> (\<exists>out. main unreachable
              = Some \<lparr>printed = out @ [NoEnvironment], written = [], raised = None\<rparr>)
   \<and> environment_fails unreachable_treemap ''production''
         \<lparr>local_units_url = ''https://goadmin.ifrc.org/api/v2/local-units/'',
          country_url = ''https://goadmin.ifrc.org/api/v2/country/''\<rparr>
   \<and> environment_fails unreachable_treemap ''staging''
         \<lparr>local_units_url = ''https://goadmin-stage.ifrc.org/api/v2/local-units/'',
          country_url = ''https://goadmin-stage.ifrc.org/api/v2/country/''\<rparr>
   \<and> (\<exists>out. main_treemap unreachable_treemap
              = Some \<lparr>printed = out @ [NoEnvironment], written = [], raised = None\<rparr>)"
  using no_environment_no_file [of unreachable unreachable_treemap]
    unreachable_fails unreachable_treemap_fails
  by (simp add: ENVIRONMENTS_def ENVIRONMENTS_treemap_def)

text \<open>
  C7. Production raises a connection error and is skipped with a warning; staging is
  fetched and holds no record. The simple report then builds a frame from no row, which
  has no column, and \<^verbatim>\<open>df[count_col]\<close> raises \<^verbatim>\<open>KeyError\<close>; the treemap report sorts a
  frame that has no column by \<open>categories\<close> and raises \<^verbatim>\<open>KeyError\<close> inside
  \<^verbatim>\<open>process_environment\<close>, where only the two request exceptions are caught. Neither run
  completes, and no file is written.
\<close>

theorem empty_environment_raises:
  "main staging_empty =
     Some \<lparr>printed =
            [Banner ''production'',
             Fetching ''https://goadmin.ifrc.org/api/v2/local-units/'' 0,
             WarnUnreachable ''production'',
             Banner ''staging'',
             Fetching ''https://goadmin-stage.ifrc.org/api/v2/local-units/'' 0,
             Got 0 0 0, TotalRecords 0, TypesFound []],
          written = [], raised = Some (KeyError ''count_staging'')\<rparr>
   \<and> main_treemap staging_empty_treemap =
     Some \<lparr>printed =
            [Banner ''production'', FetchingCountries,
             Fetching ''production/Countries'' 0, Got 1 1 1, Mapped 1,
             FetchingLocalUnits, Fetching ''production/Local Units'' 0,
             WarnUnreachable ''production'',
             Banner ''staging'', FetchingCountries,
             Fetching ''staging/Countries'' 0, Got 1 1 1, Mapped 1,
             FetchingLocalUnits, Fetching ''staging/Local Units'' 0, Got 0 0 0,
             TotalLocalUnits 0],
          written = [], raised = Some (KeyError ''categories'')\<rparr>"
  by code_simp

section \<open>Runs: a skipped environment beside one that has records\<close>

lemma keys_update: "fst ` set (AList.update k v al) = insert k (fst ` set al)"
  using dom_update [of k v al] by (simp add: dom_map_of_conv_image_fst)

lemma add_counts_keys:
  "fst ` set (add_counts ec t envs r)
     = fst ` set r \<union> (\<lambda>e. ''count_'' @ e) ` (fst ` set envs \<inter> fst ` set ec)"
proof (induction envs arbitrary: r)
  case Nil
  show ?case by simp
next
  case (Cons p envs)
  obtain e u where p: "p = (e, u)" by (cases p)
  show ?case
  proof (cases "map_of ec e")
    case None
    then have "e \<notin> fst ` set ec" by (simp add: map_of_eq_None_iff)
    with None show ?thesis by (auto simp: p Cons.IH)
  next
    case (Some counts)
    then have "e \<in> fst ` set ec" by (metis map_of_eq_None_iff option.distinct(1))
    with Some show ?thesis by (auto simp: p Cons.IH keys_update)
  qed
qed

lemma DataFrame_keys: "fst ` set (DataFrame rows) = (\<Union>r\<in>set rows. fst ` set r)"
  by (simp add: DataFrame_def frame_columns_set image_image)

lemma UN_const_eq:
  assumes "S \<noteq> {}" and "\<And>r. r \<in> S \<Longrightarrow> f r = K"
  shows "(\<Union>r\<in>S. f r) = K"
  using assms by auto

lemma build_rows_keys:
  assumes "all_types ec \<noteq> []"
  shows "fst ` set (DataFrame (build_rows ec))
           = insert ''categories''
               ((\<lambda>e. ''count_'' @ e) ` (fst ` set ENVIRONMENTS \<inter> fst ` set ec))"
proof -
  have "fst ` set r = insert ''categories''
               ((\<lambda>e. ''count_'' @ e) ` (fst ` set ENVIRONMENTS \<inter> fst ` set ec))"
    if "r \<in> set (build_rows ec)" for r
  proof -
    from that obtain t where "r = add_counts ec t ENVIRONMENTS [(''categories'', Str t)]"
      by (auto simp: build_rows_def)
    then show ?thesis by (simp add: add_counts_keys)
  qed
  moreover have "set (build_rows ec) \<noteq> {}" using assms by (simp add: build_rows_def)
  ultimately show ?thesis unfolding DataFrame_keys by (intro UN_const_eq)
qed

lemma add_derived_ok:
  assumes "\<forall>e\<in>set envs. ''count_'' @ e \<in> fst ` set df"
  shows "\<exists>df'. add_derived envs df = Inr df'
           \<and> fst ` set df' = fst ` set df
               \<union> (\<Union>e\<in>set envs. {''pct_'' @ e, ''waffle_cells_'' @ e})"
  using assms
proof (induction envs arbitrary: df)
  case Nil
  show ?case by simp
next
  case (Cons e envs)
  from Cons.prems have "''count_'' @ e \<in> fst ` set df" by simp
  then obtain col where col: "map_of df (''count_'' @ e) = Some col"
    by (metis map_of_eq_None_iff not_Some_eq)
  define df1 where "df1 = AList.update (''waffle_cells_'' @ e) (waffle_column (column_sum col) col)
               (AList.update (''pct_'' @ e) (pct_column (column_sum col) col) df)"
  have step: "add_derived (e # envs) df = add_derived envs df1"
    using col by (simp add: Let_def df1_def)
  have keys: "fst ` set df1 = insert (''waffle_cells_'' @ e) (insert (''pct_'' @ e) (fst ` set df))"
    unfolding df1_def by (simp only: keys_update)
  from Cons.prems have "\<forall>e'\<in>set envs. ''count_'' @ e' \<in> fst ` set df" by simp
  then have "\<forall>e'\<in>set envs. ''count_'' @ e' \<in> fst ` set df1"
    unfolding keys by blast
  from Cons.IH [OF this] obtain df' where
    r: "add_derived envs df1 = Inr df'"
    and k: "fst ` set df' = fst ` set df1 \<union> (\<Union>e\<in>set envs. {''pct_'' @ e, ''waffle_cells_'' @ e})"
    by blast
  have "fst ` set df' = fst ` set df
          \<union> (\<Union>e\<in>set (e # envs). {''pct_'' @ e, ''waffle_cells_'' @ e})"
    unfolding k keys by (simp only: set_simps UN_insert) blast
  with r step show ?case by simp
qed

lemma main_report_completes:
  assumes "all_types ec \<noteq> []" and "fst ` set ec \<subseteq> fst ` set ENVIRONMENTS"
  shows "\<exists>df. main_report ec out =
                \<lparr>printed = out @ [Saved OUTPUT_FILE [''Local Unit Types''], PrintFrame df],
                 written = [(OUTPUT_FILE, [(''Local Unit Types'', df)])],
                 raised = None\<rparr>
              \<and> fst ` set df = insert ''categories''
                   (\<Union>e\<in>fst ` set ec. {''count_'' @ e, ''pct_'' @ e, ''waffle_cells_'' @ e})"
proof -
  from assms(1) have ne: "ec \<noteq> []" by (auto simp: all_types_def)
  let ?df = "DataFrame (build_rows ec)"
  have keys: "fst ` set ?df = insert ''categories'' ((\<lambda>e. ''count_'' @ e) ` fst ` set ec)"
    using build_rows_keys [OF assms(1)] assms(2) by (simp add: Int_absorb1)
  then have "\<forall>e\<in>set (map fst ec). ''count_'' @ e \<in> fst ` set ?df"
    unfolding set_map by blast
  from add_derived_ok [OF this] obtain df where
    d: "add_derived (map fst ec) ?df = Inr df"
    and k: "fst ` set df = fst ` set ?df
               \<union> (\<Union>e\<in>set (map fst ec). {''pct_'' @ e, ''waffle_cells_'' @ e})"
    by blast
  have "fst ` set df = insert ''categories''
                   (\<Union>e\<in>fst ` set ec. {''count_'' @ e, ''pct_'' @ e, ''waffle_cells_'' @ e})"
    unfolding k keys set_map by blast
  with d ne show ?thesis by (simp add: main_report_def)
qed

lemma count_types_nonempty:
  assumes "records \<noteq> []"
  shows "count_types records \<noteq> []"
proof
  assume "count_types records = []"
  then have "marginal (\<lambda>_. True) (count_types records) = 0" by (simp add: marginal_def)
  then show False
    using assms unfolding count_types_def marginal_count_types_loop by (simp add: marginal_def)
qed

text \<open>
  Environment isolation where the code achieves it: when production fails with one of the two caught
  exceptions and staging delivers at least one record, the run completes, the warning for
  production is printed, and the frame written has the columns of staging only. The same
  for the treemap report: one sheet, for staging.
\<close>

lemma fetch_environments_production_fails:
  assumes p: "fetch_fails (w ''https://goadmin.ifrc.org/api/v2/local-units/'')
                ''https://goadmin.ifrc.org/api/v2/local-units/''"
    and s: "fetch_all_local_units (w ''https://goadmin-stage.ifrc.org/api/v2/local-units/'')
              ''https://goadmin-stage.ifrc.org/api/v2/local-units/'' = Some (fetched, Inr records)"
  shows "\<exists>out. fetch_environments w ENVIRONMENTS [] []
                 = Some (out, Inr [(''staging'', count_types records)])
               \<and> (WarnUnreachable ''production'' \<in> set out \<or> WarnHTTP ''production'' \<in> set out)"
  using fetch_failsD [OF p] s
  by (auto simp: ENVIRONMENTS_def fetch_all_local_units_def Let_def)

lemma isolation_simple:
  assumes p: "fetch_fails (w ''https://goadmin.ifrc.org/api/v2/local-units/'')
                ''https://goadmin.ifrc.org/api/v2/local-units/''"
    and s: "fetch_all_local_units (w ''https://goadmin-stage.ifrc.org/api/v2/local-units/'')
              ''https://goadmin-stage.ifrc.org/api/v2/local-units/'' = Some (fetched, Inr records)"
    and ne: "records \<noteq> []"
  shows "\<exists>out df. main w =
                    Some \<lparr>printed = out,
                          written = [(OUTPUT_FILE, [(''Local Unit Types'', df)])],
                          raised = None\<rparr>
                  \<and> fst ` set df
                      = {''categories'', ''count_staging'', ''pct_staging'', ''waffle_cells_staging''}
                  \<and> (WarnUnreachable ''production'' \<in> set out
                       \<or> WarnHTTP ''production'' \<in> set out)"
proof -
  let ?ec = "[(''staging'', count_types records)]"
  from fetch_environments_production_fails [OF p s] obtain out0 where
    f: "fetch_environments w ENVIRONMENTS [] [] = Some (out0, Inr ?ec)"
    and warn: "WarnUnreachable ''production'' \<in> set out0 \<or> WarnHTTP ''production'' \<in> set out0"
    by blast
  have "set (all_types ?ec) \<noteq> {}"
    using count_types_nonempty [OF ne] by (simp add: all_types_set)
  then have a: "all_types ?ec \<noteq> []" by auto
  have e: "fst ` set ?ec \<subseteq> fst ` set ENVIRONMENTS" by (simp add: ENVIRONMENTS_def)
  from main_report_completes [OF a e, of out0] obtain df where
    r: "main_report ?ec out0 =
          \<lparr>printed = out0 @ [Saved OUTPUT_FILE [''Local Unit Types''], PrintFrame df],
           written = [(OUTPUT_FILE, [(''Local Unit Types'', df)])], raised = None\<rparr>"
    and k: "fst ` set df = insert ''categories''
              (\<Union>e\<in>fst ` set ?ec. {''count_'' @ e, ''pct_'' @ e, ''waffle_cells_'' @ e})"
    by blast
  have k': "fst ` set df
              = {''categories'', ''count_staging'', ''pct_staging'', ''waffle_cells_staging''}"
    unfolding k by simp
  have "main w = Some (main_report ?ec out0)" by (simp add: main_def f)
  with r k' warn show ?thesis by auto
qed

lemma count_type_region_nonempty:
  assumes "local_units \<noteq> []"
  shows "fst (count_type_region m local_units) \<noteq> []"
proof
  assume "fst (count_type_region m local_units) = []"
  then have "marginal (\<lambda>_. True) (fst (count_type_region m local_units)) = 0"
    by (simp add: marginal_def)
  then show False
    using assms unfolding count_type_region_def marginal_count_type_region_loop
    by (simp add: marginal_def)
qed

lemma sorted_frame_ok:
  assumes "rows \<noteq> []"
    and "\<And>r. r \<in> set rows \<Longrightarrow> fst ` set r = {''categories'', ''Region'', ''count''}"
  shows "\<exists>df. sorted_frame rows = Inr df
              \<and> fst ` set df = {''categories'', ''Region'', ''count''}"
proof -
  have k: "fst ` set (DataFrame rows) = {''categories'', ''Region'', ''count''}"
    unfolding DataFrame_keys using assms by (intro UN_const_eq) simp_all
  then have "''categories'' \<in> fst ` set (DataFrame rows)"
    and "''Region'' \<in> fst ` set (DataFrame rows)" by simp_all
  then have c: "map_of (DataFrame rows) ''categories'' \<noteq> None"
    and g: "map_of (DataFrame rows) ''Region'' \<noteq> None"
    by (simp_all only: map_of_eq_None_iff not_not)
  have "fst ` set (DataFrame (sort_key row_key rows)) = {''categories'', ''Region'', ''count''}"
    unfolding DataFrame_keys using assms by (intro UN_const_eq) simp_all
  with c g show ?thesis by (simp add: sorted_frame_def)
qed

lemma process_environment_ok:
  assumes c: "fetch_paginated (get_countries w (country_url u)) (env_name @ ''/Countries'')
                = Some (out1, Inr countries)"
    and l: "fetch_paginated (get_local_units w (local_units_url u)) (env_name @ ''/Local Units'')
                = Some (out2, Inr local_units)"
    and ne: "local_units \<noteq> []"
  shows "\<exists>out df. process_environment w env_name u = Some (out, Inr (Some df))
                  \<and> fst ` set df = {''categories'', ''Region'', ''count''}"
proof -
  obtain counter unresolved where
    t: "count_type_region (build_country_to_region countries) local_units = (counter, unresolved)"
    by (cases "count_type_region (build_country_to_region countries) local_units")
  with count_type_region_nonempty [OF ne, of "build_country_to_region countries"]
  have cne: "counter \<noteq> []" by simp
  define rows where "rows = map (\<lambda>((type_name, region_name), n).
                                     [(''categories'', Str type_name),
                                      (''Region'', Str region_name),
                                      (''count'', Num (int n))])
                                (sort counter)"
  have "length rows = length counter" by (simp add: rows_def)
  with cne have rne: "rows \<noteq> []" by auto
  have keys: "fst ` set r = {''categories'', ''Region'', ''count''}" if "r \<in> set rows" for r
    using that by (auto simp: rows_def)
  from sorted_frame_ok [OF rne keys] obtain df where
    "sorted_frame rows = Inr df" "fst ` set df = {''categories'', ''Region'', ''count''}"
    by blast
  then show ?thesis
    using c l t by (simp add: process_environment_def Let_def rows_def)
qed

lemma isolation_treemap:
  assumes p: "environment_fails w ''production''
                \<lparr>local_units_url = ''https://goadmin.ifrc.org/api/v2/local-units/'',
                 country_url = ''https://goadmin.ifrc.org/api/v2/country/''\<rparr>"
    and c: "fetch_paginated (get_countries w ''https://goadmin-stage.ifrc.org/api/v2/country/'')
              ''staging/Countries'' = Some (out1, Inr countries)"
    and l: "fetch_paginated
              (get_local_units w ''https://goadmin-stage.ifrc.org/api/v2/local-units/'')
              ''staging/Local Units'' = Some (out2, Inr local_units)"
    and ne: "local_units \<noteq> []"
  shows "\<exists>out df. main_treemap w =
                    Some \<lparr>printed = out,
                          written = [(OUTPUT_FILE_treemap, [(''Staging'', df)])],
                          raised = None\<rparr>
                  \<and> fst ` set df = {''categories'', ''Region'', ''count''}"
proof -
  let ?pu = "\<lparr>local_units_url = ''https://goadmin.ifrc.org/api/v2/local-units/'',
              country_url = ''https://goadmin.ifrc.org/api/v2/country/''\<rparr>"
  let ?su = "\<lparr>local_units_url = ''https://goadmin-stage.ifrc.org/api/v2/local-units/'',
              country_url = ''https://goadmin-stage.ifrc.org/api/v2/country/''\<rparr>"
  from process_environment_fails [OF p] obtain o1 where
    pf: "process_environment w ''production'' ?pu = Some (o1, Inr None)" by (elim exE)
  have c': "fetch_paginated (get_countries w (country_url ?su)) (''staging'' @ ''/Countries'')
              = Some (out1, Inr countries)"
    using c by simp
  have l': "fetch_paginated (get_local_units w (local_units_url ?su))
              (''staging'' @ ''/Local Units'') = Some (out2, Inr local_units)"
    using l by simp
  from process_environment_ok [OF c' l' ne] obtain o2 df where
    sf: "process_environment w ''staging'' ?su = Some (o2, Inr (Some df))"
    and k: "fst ` set df = {''categories'', ''Region'', ''count''}" by (elim exE conjE)
  have cap: "capitalize ''staging'' = ''Staging''"
    by (simp add: capitalize_def upper_char_def lower_char_def)
  have pe: "process_environments w ENVIRONMENTS_treemap [] []
              = Some ([Banner ''production''] @ o1 @ [Banner ''staging''] @ o2
                        @ [EnvRows ''staging'' (frame_len df), PrintFrame df],
                      Inr [(''staging'', df)])"
    unfolding ENVIRONMENTS_treemap_def process_environments.simps pf sf by simp
  have "main_treemap w =
          Some \<lparr>printed = ([Banner ''production''] @ o1 @ [Banner ''staging''] @ o2
                              @ [EnvRows ''staging'' (frame_len df), PrintFrame df])
                             @ [Saved OUTPUT_FILE_treemap [''staging'']],
                written = [(OUTPUT_FILE_treemap, [(''Staging'', df)])],
                raised = None\<rparr>"
    unfolding main_treemap_def pe by (simp add: cap)
  with k show ?thesis by simp
qed

text \<open>
  The guard \<^verbatim>\<open>if total else 0\<close> of the two derived columns: when the counts of an environment
  add up to 0, both columns hold the integer 0 in every row and nothing is divided.
\<close>

lemma derived_columns_zero_total:
  assumes "map_of df (''count_'' @ env_name) = Some col" and "column_sum col = 0"
  shows "\<exists>df'. add_derived [env_name] df = Inr df'
           \<and> map_of df' (''pct_'' @ env_name) = Some (replicate (length col) (Num 0))
           \<and> map_of df' (''waffle_cells_'' @ env_name) = Some (replicate (length col) (Num 0))"
  using assms by (simp add: Let_def update_conv' pct_column_def waffle_column_def)

end
